theory Spec2Isabelle
  imports Main "HOL-Library.Finite_Map" "HOL-Library.Sublist"
begin

section \<open>Values exchanged with the caller and the collaborators\<close>

text \<open>
  The tool input is a JSON object (\<open>Dict[str, Any]\<close>), the success payload is a JSON
  object as well.  Floating point numbers are left out.
\<close>

datatype json =
    JNull
  | JBool bool
  | JInt int
  | JStr string
  | JList "json list"
  | JObj "(string \<times> json) list"

text \<open>
  Exceptions as values.  Each constructor carries what \<open>str(e)\<close> prints, except
  \<open>HTTPException\<close>, which carries its status code and its detail.
\<close>

datatype exn =
    FileNotFoundError string
  | RuntimeError string
  | TypeError string
  | ValueError string
  | KeyError string
  | AttributeError string
  | NameError string
  | OSError string
  | HttpError string
  | LibraryError string
  | HTTPException nat string

section \<open>Paths (\<open>posixpath\<close>)\<close>

definition isabs :: "string \<Rightarrow> bool" where
  "isabs p = (case p of [] \<Rightarrow> False | c # _ \<Rightarrow> c = CHR ''/'')"

definition join :: "string \<Rightarrow> string \<Rightarrow> string" where
  "join a b =
     (if isabs b then b
      else if a = [] \<or> last a = CHR ''/'' then a @ b
      else a @ ''/'' @ b)"

definition basename :: "string \<Rightarrow> string" where
  "basename p = rev (takeWhile (\<lambda>c. c \<noteq> CHR ''/'') (rev p))"

definition dirname :: "string \<Rightarrow> string" where
  "dirname p =
     (let head = rev (dropWhile (\<lambda>c. c \<noteq> CHR ''/'') (rev p))
      in if head \<noteq> [] \<and> (\<exists>c \<in> set head. c \<noteq> CHR ''/'')
         then rev (dropWhile (\<lambda>c. c = CHR ''/'') (rev head))
         else head)"

text \<open>
  \<open>splitext\<close>: the extension starts at the last dot of the last component, unless
  only dots precede it in that component.
\<close>

definition splitext :: "string \<Rightarrow> string \<times> string" where
  "splitext p =
     (let name = basename p;
          ext = rev (takeWhile (\<lambda>c. c \<noteq> CHR ''.'') (rev name));
          stem = take (length name - length ext - 1) name
      in if CHR ''.'' \<in> set name \<and> (\<exists>c \<in> set stem. c \<noteq> CHR ''.'')
         then (take (length p - length ext - 1) p, CHR ''.'' # ext)
         else (p, []))"

text \<open>The components of a path string, split at the slashes.\<close>

fun split_slash :: "string \<Rightarrow> string \<Rightarrow> string list" where
  "split_slash acc [] = [rev acc]"
| "split_slash acc (c # cs) =
     (if c = CHR ''/'' then rev acc # split_slash [] cs else split_slash (c # acc) cs)"

text \<open>
  A file is addressed by the list of the components of its absolute path, outermost
  first.  There are no symbolic links.
\<close>

type_synonym path = "string list"

section \<open>The local file system\<close>

datatype content = Bytes string | Archive "(string \<times> content) list"

datatype node = Dir | File content

type_synonym filesystem = "(path, node) fmap"

definition is_dir :: "filesystem \<Rightarrow> path \<Rightarrow> bool" where
  "is_dir fs k = (k = [] \<or> fmlookup fs k = Some Dir)"

definition present :: "filesystem \<Rightarrow> path \<Rightarrow> bool" where
  "present fs k = (k = [] \<or> fmlookup fs k \<noteq> None)"

text \<open>
  Path resolution as the kernel does it: a component is looked up in a directory only,
  empty components are skipped, \<open>.\<close> stays and \<open>..\<close> steps to the parent.  The result is
  the address the path denotes (whether or not something is there), or \<open>None\<close> when the
  walk leaves the directories that exist.
\<close>

fun walk :: "filesystem \<Rightarrow> path \<Rightarrow> string list \<Rightarrow> path option" where
  "walk fs cur [] = Some cur"
| "walk fs cur (c # cs) =
     (if c = [] then walk fs cur cs
      else if \<not> is_dir fs cur then None
      else if c = ''.'' then walk fs cur cs
      else if c = ''..'' then walk fs (butlast cur) cs
      else walk fs (cur @ [c]) cs)"

definition resolve :: "filesystem \<Rightarrow> path \<Rightarrow> string \<Rightarrow> path option" where
  "resolve fs cwd p =
     (if p = [] then None else walk fs (if isabs p then [] else cwd) (split_slash [] p))"

text \<open>\<open>os.path.exists\<close>.\<close>

definition exists :: "filesystem \<Rightarrow> path \<Rightarrow> string \<Rightarrow> bool" where
  "exists fs cwd p = (case resolve fs cwd p of None \<Rightarrow> False | Some k \<Rightarrow> present fs k)"

text \<open>\<open>os.path.abspath\<close> of a relative path: the working directory joined with it, normalised.\<close>

fun norm :: "path \<Rightarrow> string list \<Rightarrow> path" where
  "norm cur [] = cur"
| "norm cur (c # cs) =
     (if c = [] \<or> c = ''.'' then norm cur cs
      else if c = ''..'' then norm (butlast cur) cs
      else norm (cur @ [c]) cs)"

fun render :: "path \<Rightarrow> string" where
  "render [] = ''/''"
| "render [c] = CHR ''/'' # c"
| "render (c # cs) = CHR ''/'' # c @ render cs"

definition abspath :: "path \<Rightarrow> string \<Rightarrow> string" where
  "abspath cwd p = render (norm (if isabs p then [] else cwd) (split_slash [] p))"

text \<open>Opening a file for writing creates it empty, or truncates it.\<close>

definition write_file :: "filesystem \<Rightarrow> path \<Rightarrow> string \<Rightarrow> content \<Rightarrow> exn + filesystem" where
  "write_file fs cwd p c =
     (case resolve fs cwd p of
        None \<Rightarrow> Inl (FileNotFoundError (''[Errno 2] No such file or directory: '' @ p))
      | Some k \<Rightarrow>
          if is_dir fs k then Inl (OSError (''[Errno 21] Is a directory: '' @ p))
          else if \<not> is_dir fs (butlast k)
          then Inl (FileNotFoundError (''[Errno 2] No such file or directory: '' @ p))
          else Inr (fmupd k (File c) fs))"

text \<open>\<open>open(p, "rb").read()\<close>.\<close>

definition read_file :: "filesystem \<Rightarrow> path \<Rightarrow> string \<Rightarrow> exn + content" where
  "read_file fs cwd p =
     (case resolve fs cwd p of
        None \<Rightarrow> Inl (FileNotFoundError (''[Errno 2] No such file or directory: '' @ p))
      | Some k \<Rightarrow>
          if is_dir fs k then Inl (OSError (''[Errno 21] Is a directory: '' @ p))
          else case fmlookup fs k of
                 Some (File c) \<Rightarrow> Inr c
               | _ \<Rightarrow> Inl (FileNotFoundError (''[Errno 2] No such file or directory: '' @ p)))"

text \<open>
  \<open>os.makedirs(p, exist_ok=True)\<close>: every missing directory on the way is created; a
  file in the way is an error.
\<close>

fun makedirs_from :: "filesystem \<Rightarrow> path \<Rightarrow> string list \<Rightarrow> exn + filesystem" where
  "makedirs_from fs cur [] =
     (if is_dir fs cur then Inr fs else Inl (OSError ''[Errno 17] File exists''))"
| "makedirs_from fs cur (c # cs) =
     (if c = [] then makedirs_from fs cur cs
      else if \<not> is_dir fs cur then Inl (OSError ''[Errno 20] Not a directory'')
      else if c = ''.'' then makedirs_from fs cur cs
      else if c = ''..'' then makedirs_from fs (butlast cur) cs
      else if present fs (cur @ [c]) then makedirs_from fs (cur @ [c]) cs
      else makedirs_from (fmupd (cur @ [c]) Dir fs) (cur @ [c]) cs)"

definition makedirs :: "filesystem \<Rightarrow> path \<Rightarrow> string \<Rightarrow> exn + filesystem" where
  "makedirs fs cwd p =
     (if p = [] then Inl (FileNotFoundError ''[Errno 2] No such file or directory: '')
      else makedirs_from fs (if isabs p then [] else cwd) (split_slash [] p))"

text \<open>\<open>shutil.rmtree(p)\<close>: the directory and everything below it.\<close>

definition rmtree :: "filesystem \<Rightarrow> path \<Rightarrow> string \<Rightarrow> exn + filesystem" where
  "rmtree fs cwd p =
     (case resolve fs cwd p of
        None \<Rightarrow> Inl (FileNotFoundError (''[Errno 2] No such file or directory: '' @ p))
      | Some k \<Rightarrow>
          if k \<noteq> [] \<and> fmlookup fs k = Some Dir
          then Inr (fmfilter (\<lambda>q. \<not> prefix k q) fs)
          else Inl (OSError (''[Errno 20] Not a directory: '' @ p)))"

section \<open>The world outside the process\<close>

text \<open>What the libraries hand back: credentials, messages, HTTP responses.\<close>

record creds =
  valid :: bool
  expired :: bool
  refresh_token :: "string option"
  to_json :: string

record part =
  filename :: "string option"
  attachmentId :: "string option"

record message =
  msg_id :: "string option"
  payload :: "part list option option"

record http_response =
  status_code :: nat
  resp_text :: string
  resp_json :: "exn + json"

datatype raw_message = Raw string string string string content

record settings =
  GOOGLE_CREDENTIALS_FILE :: string
  GOOGLE_TOKEN_FILE :: string
  MSFT_CLIENT_SECRET :: string
  MSFT_SCOPES :: "string list"

text \<open>
  The collaborators and the process environment.  A remote call is a function of its
  arguments that returns a result or raises.
\<close>

record env =
  cwd :: path
  config :: settings
  mkdtemp_name :: path
  http_exception_str :: "nat \<Rightarrow> string \<Rightarrow> string"
  int_of_str :: "string \<Rightarrow> int option"
  urlsafe_b64decode :: "string \<Rightarrow> exn + string"
  from_authorized_user_file :: "content \<Rightarrow> exn + creds"
  run_local_server :: "content \<Rightarrow> exn + creds"
  gmail_build :: "creds \<Rightarrow> exn + unit"
  messages_list :: "json \<Rightarrow> int \<Rightarrow> exn + string list"
  messages_get :: "string \<Rightarrow> exn + message"
  attachments_get :: "string \<Rightarrow> string \<Rightarrow> exn + string option"
  messages_send :: "raw_message \<Rightarrow> exn + json"
  get_accounts :: "string list"
  acquire_token_silent :: "string list \<Rightarrow> string \<Rightarrow> exn + (string \<times> string) list option"
  acquire_token_for_client :: "string list \<Rightarrow> exn + (string \<times> string) list"
  initiate_device_flow :: "string list \<Rightarrow> exn + (string \<times> string) list"
  acquire_token_by_device_flow :: "(string \<times> string) list \<Rightarrow> exn + (string \<times> string) list"
  requests_put :: "string \<Rightarrow> string \<Rightarrow> content \<Rightarrow> exn + http_response"

text \<open>Every call that leaves the process, and every change of the file system, is logged.\<close>

datatype event =
    Mkdtemp string
  | Rmtree string
  | Makedirs string
  | WriteFile path
  | ZipOpen path
  | ZipWrite path string
  | RunLocalServer
  | GmailBuild
  | MessagesList json int
  | MessagesGet string
  | AttachmentsGet string string
  | MessagesSend raw_message
  | GetAccounts
  | AcquireTokenSilent
  | AcquireTokenForClient
  | InitiateDeviceFlow
  | AcquireTokenByDeviceFlow
  | Print string
  | RequestsPut string string content

record world =
  fs :: filesystem
  trace :: "event list"

section \<open>Programs: state passing with exceptions\<close>

type_synonym 'a prog = "world \<Rightarrow> (exn + 'a) \<times> world"

definition ret :: "'a \<Rightarrow> 'a prog" where
  "ret x w = (Inr x, w)"

definition raise :: "exn \<Rightarrow> 'a prog" where
  "raise e w = (Inl e, w)"

definition andThen :: "'a prog \<Rightarrow> ('a \<Rightarrow> 'b prog) \<Rightarrow> 'b prog" where
  "andThen m f w = (case m w of (Inl e, w') \<Rightarrow> (Inl e, w') | (Inr x, w') \<Rightarrow> f x w')"

definition emit :: "event \<Rightarrow> unit prog" where
  "emit ev w = (Inr (), w\<lparr>trace := trace w @ [ev]\<rparr>)"

text \<open>A call to a collaborator: logged, then its answer.\<close>

definition call :: "event \<Rightarrow> (exn + 'a) \<Rightarrow> 'a prog" where
  "call ev r w = (r, w\<lparr>trace := trace w @ [ev]\<rparr>)"

text \<open>A change of the file system: logged when it happens.\<close>

definition change_fs :: "event \<Rightarrow> (filesystem \<Rightarrow> exn + filesystem) \<Rightarrow> unit prog" where
  "change_fs ev f w =
     (case f (fs w) of
        Inl e \<Rightarrow> (Inl e, w)
      | Inr fs' \<Rightarrow> (Inr (), w\<lparr>fs := fs', trace := trace w @ [ev]\<rparr>))"

definition os_path_exists :: "env \<Rightarrow> string \<Rightarrow> bool prog" where
  "os_path_exists E p w = (Inr (exists (fs w) (cwd E) p), w)"

definition open_read :: "env \<Rightarrow> string \<Rightarrow> content prog" where
  "open_read E p w = (read_file (fs w) (cwd E) p, w)"

definition open_write :: "env \<Rightarrow> string \<Rightarrow> content \<Rightarrow> unit prog" where
  "open_write E p c w =
     (case write_file (fs w) (cwd E) p c of
        Inl e \<Rightarrow> (Inl e, w)
      | Inr fs' \<Rightarrow>
          (case resolve (fs w) (cwd E) p of
             None \<Rightarrow> (Inr (), w\<lparr>fs := fs'\<rparr>)
           | Some k \<Rightarrow> (Inr (), w\<lparr>fs := fs', trace := trace w @ [WriteFile k]\<rparr>)))"

definition os_makedirs :: "env \<Rightarrow> string \<Rightarrow> unit prog" where
  "os_makedirs E p = change_fs (Makedirs p) (\<lambda>fs. makedirs fs (cwd E) p)"

text \<open>A pure library function that may raise.\<close>

definition lift :: "exn + 'a \<Rightarrow> 'a prog" where
  "lift r w = (r, w)"

section \<open>Formatting\<close>

text \<open>\<open>str(n)\<close> of a natural number: its decimal digits.\<close>

definition digit :: "nat \<Rightarrow> char" where
  "digit d = ''0123456789'' ! d"

function show_nat :: "nat \<Rightarrow> string" where
  "show_nat n = (if n < 10 then [digit n] else show_nat (n div 10) @ [digit (n mod 10)])"
  by pat_completeness auto
termination
  by (relation "measure id") auto

declare show_nat.simps [simp del]

definition show_int :: "int \<Rightarrow> string" where
  "show_int i = (if i < 0 then CHR ''-'' # show_nat (nat (- i)) else show_nat (nat i))"

text \<open>\<open>str(e)\<close>; what an \<open>HTTPException\<close> prints is the web framework's business.\<close>

fun str_exn :: "env \<Rightarrow> exn \<Rightarrow> string" where
  "str_exn E (FileNotFoundError m) = m"
| "str_exn E (RuntimeError m) = m"
| "str_exn E (TypeError m) = m"
| "str_exn E (ValueError m) = m"
| "str_exn E (KeyError m) = m"
| "str_exn E (AttributeError m) = m"
| "str_exn E (NameError m) = m"
| "str_exn E (OSError m) = m"
| "str_exn E (HttpError m) = m"
| "str_exn E (LibraryError m) = m"
| "str_exn E (HTTPException st d) = http_exception_str E st d"

text \<open>\<open>str(d)\<close> of a dictionary of strings.\<close>

fun str_items :: "(string \<times> string) list \<Rightarrow> string" where
  "str_items [] = []"
| "str_items [(k, v)] = k @ '': '' @ v"
| "str_items ((k, v) # kvs) = k @ '': '' @ v @ '', '' @ str_items kvs"

definition str_dict :: "(string \<times> string) list \<Rightarrow> string" where
  "str_dict d = ''{'' @ str_items d @ ''}''"

section \<open>\<open>file_compressor.py\<close>\<close>

text \<open>
  \<open>zipfile.ZipFile(output_zip, "w")\<close> opens the file for writing, which creates it;
  \<open>zf.write(f, arcname)\<close> appends one entry.  The archive is closed when the
  \<open>with\<close> block is left, by a \<open>raise\<close> as well, so the file always holds the
  entries written so far.
\<close>

definition zip_open :: "env \<Rightarrow> string \<Rightarrow> path prog" where
  "zip_open E p w =
     (case write_file (fs w) (cwd E) p (Archive []) of
        Inl e \<Rightarrow> (Inl e, w)
      | Inr fs' \<Rightarrow>
          (case resolve (fs w) (cwd E) p of
             None \<Rightarrow> (Inl (FileNotFoundError (''[Errno 2] No such file or directory: '' @ p)), w)
           | Some k \<Rightarrow> (Inr k, w\<lparr>fs := fs', trace := trace w @ [ZipOpen k]\<rparr>)))"

definition zip_entry :: "filesystem \<Rightarrow> path \<Rightarrow> string \<Rightarrow> string \<Rightarrow> exn + string \<times> content" where
  "zip_entry F wd f arcname =
     (case resolve F wd f of
        None \<Rightarrow> Inl (FileNotFoundError (''[Errno 2] No such file or directory: '' @ f))
      | Some k \<Rightarrow>
          if is_dir F k then Inr (arcname @ ''/'', Bytes [])
          else (case fmlookup F k of
                  Some (File c) \<Rightarrow> Inr (arcname, c)
                | _ \<Rightarrow> Inl (FileNotFoundError (''[Errno 2] No such file or directory: '' @ f))))"

definition zf_write ::
  "env \<Rightarrow> path \<Rightarrow> (string \<times> content) list \<Rightarrow> string \<Rightarrow> string \<Rightarrow> (string \<times> content) list prog"
where
  "zf_write E zf entries f arcname w =
     (case zip_entry (fs w) (cwd E) f arcname of
        Inl e \<Rightarrow> (Inl e, w)
      | Inr entry \<Rightarrow>
          (Inr (entries @ [entry]),
           w\<lparr>fs := fmupd zf (File (Archive (entries @ [entry]))) (fs w),
             trace := trace w @ [ZipWrite zf arcname]\<rparr>))"

text \<open>
  Python checks no type annotation.  A value that is not a string raises where a
  string operation first meets it; a value that cannot be iterated raises where the
  \<open>for\<close> loop starts.
\<close>

definition as_str :: "json \<Rightarrow> string prog" where
  "as_str v = (case v of JStr s \<Rightarrow> ret s | _ \<Rightarrow> raise (TypeError ''expected str''))"

definition iterate :: "json \<Rightarrow> json list prog" where
  "iterate v =
     (case v of
        JList xs \<Rightarrow> ret xs
      | JStr s \<Rightarrow> ret (map (\<lambda>c. JStr [c]) s)
      | JObj kvs \<Rightarrow> ret (map (\<lambda>(k, _). JStr k) kvs)
      | _ \<Rightarrow> raise (TypeError ''object is not iterable''))"

text \<open>
  The \<open>for f in file_paths\<close> loop inside the \<open>with\<close> block.  It hands back the
  entries the archive holds when the loop is through.
\<close>

fun zip_loop ::
  "env \<Rightarrow> path \<Rightarrow> (string \<times> content) list \<Rightarrow> json list \<Rightarrow> (string \<times> content) list prog"
where
  "zip_loop E zf entries [] = ret entries"
| "zip_loop E zf entries (x # rest) =
     andThen (as_str x) (\<lambda>f.
     andThen (os_path_exists E f) (\<lambda>found.
       if \<not> found then raise (FileNotFoundError (''File does not exist: '' @ f))
       else andThen (zf_write E zf entries f (basename f)) (\<lambda>entries'.
              zip_loop E zf entries' rest)))"

definition compress_files :: "env \<Rightarrow> json \<Rightarrow> string \<Rightarrow> unit prog" where
  "compress_files E file_paths output_zip =
     andThen (os_makedirs E (if dirname output_zip = [] then ''.'' else dirname output_zip)) (\<lambda>_.
     andThen (zip_open E output_zip) (\<lambda>zf.
     andThen (iterate file_paths) (\<lambda>items.
     andThen (zip_loop E zf [] items) (\<lambda>_.
       ret ()))))"

section \<open>\<open>onedrive_handler.py\<close>\<close>

definition truthy :: "string option \<Rightarrow> bool" where
  "truthy v = (case v of None \<Rightarrow> False | Some s \<Rightarrow> s \<noteq> [])"

definition get_onedrive_access_token :: "env \<Rightarrow> (string \<times> string) list prog" where
  "get_onedrive_access_token E =
     (let scopes = MSFT_SCOPES (config E) in
      andThen (call GetAccounts (Inr (get_accounts E))) (\<lambda>accounts.
      andThen (case accounts of
                 [] \<Rightarrow> ret None
               | account # _ \<Rightarrow> call AcquireTokenSilent (acquire_token_silent E scopes account))
        (\<lambda>result.
      andThen (if result = None \<or> result = Some []
               then (if MSFT_CLIENT_SECRET (config E) \<noteq> []
                     then call AcquireTokenForClient (acquire_token_for_client E scopes)
                     else
                       andThen (call InitiateDeviceFlow (initiate_device_flow E scopes)) (\<lambda>flow.
                         case map_of flow ''user_code'' of
                           None \<Rightarrow> raise (RuntimeError
                               ''Failed to create device flow. Check MSAL configuration.'')
                         | Some user_code \<Rightarrow>
                             (case map_of flow ''verification_uri'' of
                                None \<Rightarrow> raise (KeyError ''verification_uri'')
                              | Some uri \<Rightarrow>
                                  andThen (emit (Print (''To authenticate, visit '' @ uri @
                                                        '' and enter code: '' @ user_code))) (\<lambda>_.
                                    call AcquireTokenByDeviceFlow
                                      (acquire_token_by_device_flow E flow)))))
               else ret (case result of None \<Rightarrow> [] | Some r \<Rightarrow> r))
        (\<lambda>result.
      if map_of result ''access_token'' = None
      then raise (RuntimeError (''Could not obtain access token: '' @ str_dict result))
      else ret result))))"

definition upload_file_to_onedrive_path ::
  "env \<Rightarrow> (string \<times> string) list \<Rightarrow> string \<Rightarrow> string \<Rightarrow> json prog"
where
  "upload_file_to_onedrive_path E token_response local_path remote_path =
     (case map_of token_response ''access_token'' of
        None \<Rightarrow> raise (RuntimeError ''Missing access token'')
      | Some access_token \<Rightarrow>
          if access_token = [] then raise (RuntimeError ''Missing access token'')
          else
            (let url = ''https://graph.microsoft.com/v1.0/me/drive/root:/'' @ remote_path @
                       '':/content''
             in andThen (open_read E local_path) (\<lambda>data.
                andThen (call (RequestsPut url access_token data)
                           (requests_put E url access_token data)) (\<lambda>resp.
                  if status_code resp \<noteq> 200 \<and> status_code resp \<noteq> 201
                  then raise (RuntimeError (''OneDrive upload failed: '' @
                                show_nat (status_code resp) @ '' - '' @ resp_text resp))
                  else lift (resp_json resp)))))"

section \<open>\<open>email_processor.py\<close>\<close>

text \<open>
  \<open>creds.refresh(Request())\<close>: the module never imports \<open>Request\<close>, so evaluating the
  argument raises \<open>NameError\<close> before any refresh request is sent.
\<close>

definition refresh :: "creds \<Rightarrow> exn + creds" where
  "refresh c = Inl (NameError ''name Request is not defined'')"

text \<open>Lines 55 to 61: the interactive flow, and the write of the token file.\<close>

definition local_flow :: "env \<Rightarrow> creds prog" where
  "local_flow E =
     andThen (os_path_exists E (GOOGLE_CREDENTIALS_FILE (config E))) (\<lambda>has_cred.
       if \<not> has_cred
       then raise (FileNotFoundError
         ''Google credentials file not found. See README to create credentials.json.'')
       else
         andThen (open_read E (GOOGLE_CREDENTIALS_FILE (config E))) (\<lambda>secrets.
         andThen (call RunLocalServer (run_local_server E secrets)) (\<lambda>c.
         andThen (open_write E (GOOGLE_TOKEN_FILE (config E)) (Bytes (to_json c))) (\<lambda>_.
           ret c))))"

definition build_gmail_service :: "env \<Rightarrow> creds prog" where
  "build_gmail_service E =
     andThen (os_path_exists E (GOOGLE_TOKEN_FILE (config E))) (\<lambda>has_token.
     andThen (if has_token
              then andThen (open_read E (GOOGLE_TOKEN_FILE (config E))) (\<lambda>text.
                   andThen (lift (from_authorized_user_file E text)) (\<lambda>c. ret (Some c)))
              else ret None) (\<lambda>creds.
     andThen (case creds of
                None \<Rightarrow> local_flow E
              | Some c \<Rightarrow>
                  if valid c then ret c
                  else if expired c \<and> truthy (refresh_token c)
                  then (case refresh c of Inl _ \<Rightarrow> local_flow E | Inr c' \<Rightarrow> ret c')
                  else ret c) (\<lambda>c.
     andThen (call GmailBuild (gmail_build E c)) (\<lambda>_.
       ret c))))"

definition has_attachment :: "part list \<Rightarrow> bool" where
  "has_attachment parts = (\<exists>p \<in> set parts. truthy (filename p))"

text \<open>The \<open>for m in messages\<close> loop of the search.\<close>

fun search_loop :: "env \<Rightarrow> string list \<Rightarrow> message list \<Rightarrow> message list prog" where
  "search_loop E [] found = ret found"
| "search_loop E (m # ms) found =
     andThen (call (MessagesGet m) (messages_get E m)) (\<lambda>msg.
       search_loop E ms
         (case payload msg of
            Some (Some parts) \<Rightarrow> if has_attachment parts then found @ [msg] else found
          | _ \<Rightarrow> found))"

text \<open>\<open>except HttpError as e: raise RuntimeError(...)\<close>.\<close>

definition except_HttpError :: "'a prog \<Rightarrow> 'a prog" where
  "except_HttpError m w =
     (case m w of
        (Inl (HttpError msg), w') \<Rightarrow> (Inl (RuntimeError (''Gmail API error during search: '' @ msg)), w')
      | r \<Rightarrow> r)"

definition search_messages_with_attachments :: "env \<Rightarrow> json \<Rightarrow> int \<Rightarrow> message list prog" where
  "search_messages_with_attachments E query max_results =
     except_HttpError
       (andThen (call (MessagesList query max_results) (messages_list E query max_results))
          (\<lambda>messages. search_loop E messages []))"

text \<open>
  The \<open>while os.path.exists(save_path)\<close> loop.  It reads the file system and changes
  nothing.
\<close>

function unique_path :: "filesystem \<Rightarrow> path \<Rightarrow> string \<Rightarrow> string \<Rightarrow> nat \<Rightarrow> string \<Rightarrow> string" where
  "unique_path F wd base ext i save_path =
     (if exists F wd save_path
      then unique_path F wd base ext (i + 1) (base @ ''_'' @ show_nat i @ ext)
      else save_path)"
  by pat_completeness auto

definition save_attachment :: "env \<Rightarrow> string \<Rightarrow> string \<Rightarrow> string \<Rightarrow> string \<Rightarrow> string prog" where
  "save_attachment E download_folder mid name attach_id =
     andThen (call (AttachmentsGet mid attach_id) (attachments_get E mid attach_id)) (\<lambda>data.
       case data of
         None \<Rightarrow> raise (AttributeError ''NoneType object has no attribute encode'')
       | Some d \<Rightarrow>
           andThen (lift (urlsafe_b64decode E d)) (\<lambda>file_data.
           andThen (\<lambda>w. (Inr (let save_path = join download_folder name;
                                   (base, ext) = splitext save_path
                               in unique_path (fs w) (cwd E) base ext 1 save_path), w))
             (\<lambda>save_path.
           andThen (open_write E save_path (Bytes file_data)) (\<lambda>_.
             ret save_path))))"

text \<open>The \<open>for part in parts\<close> loop.\<close>

fun download_parts ::
  "env \<Rightarrow> string \<Rightarrow> string \<Rightarrow> part list \<Rightarrow> string list \<Rightarrow> string list prog"
where
  "download_parts E download_folder mid [] saved_files = ret saved_files"
| "download_parts E download_folder mid (p # ps) saved_files =
     (if truthy (filename p)
      then (case attachmentId p of
              Some attach_id \<Rightarrow>
                andThen (save_attachment E download_folder mid
                           (case filename p of Some n \<Rightarrow> n | None \<Rightarrow> []) attach_id)
                  (\<lambda>save_path.
                     download_parts E download_folder mid ps (saved_files @ [save_path]))
            | None \<Rightarrow> download_parts E download_folder mid ps saved_files)
      else download_parts E download_folder mid ps saved_files)"

text \<open>The \<open>for msg in messages\<close> loop.\<close>

fun download_loop :: "env \<Rightarrow> string \<Rightarrow> message list \<Rightarrow> string list \<Rightarrow> string list prog" where
  "download_loop E download_folder [] saved_files = ret saved_files"
| "download_loop E download_folder (msg # msgs) saved_files =
     (case msg_id msg of
        None \<Rightarrow> raise (KeyError ''id'')
      | Some mid \<Rightarrow>
          (case payload msg of
             None \<Rightarrow> raise (KeyError ''payload'')
           | Some parts \<Rightarrow>
               andThen (download_parts E download_folder mid
                          (case parts of None \<Rightarrow> [] | Some ps \<Rightarrow> ps) saved_files)
                 (\<lambda>saved_files'. download_loop E download_folder msgs saved_files')))"

definition download_attachments_from_messages ::
  "env \<Rightarrow> message list \<Rightarrow> string \<Rightarrow> string list prog"
where
  "download_attachments_from_messages E messages download_folder =
     andThen (os_makedirs E download_folder) (\<lambda>_.
       download_loop E download_folder messages [])"

text \<open>\<open>try: ... send ... except Exception as e: raise RuntimeError(...)\<close>.\<close>

definition except_send :: "env \<Rightarrow> 'a prog \<Rightarrow> 'a prog" where
  "except_send E m w =
     (case m w of
        (Inl e, w') \<Rightarrow> (Inl (RuntimeError (''Failed to send message: '' @ str_exn E e)), w')
      | r \<Rightarrow> r)"

definition send_message_with_attachment ::
  "env \<Rightarrow> json \<Rightarrow> json \<Rightarrow> json \<Rightarrow> string \<Rightarrow> json prog"
where
  "send_message_with_attachment E to subject body_text file_path =
     andThen (os_path_exists E file_path) (\<lambda>found.
       if \<not> found then raise (FileNotFoundError (''Attachment not found: '' @ file_path))
       else
         andThen (as_str to) (\<lambda>to'.
         andThen (as_str subject) (\<lambda>subject'.
         andThen (as_str body_text) (\<lambda>body_text'.
         andThen (open_read E file_path) (\<lambda>data.
           (let raw = Raw to' subject' body_text' (basename file_path) data
            in except_send E
                 (andThen (call (MessagesSend raw) (messages_send E raw)) (\<lambda>sent_id.
                    ret (JObj [(''id'', sent_id)])))))))))"

section \<open>\<open>server.py\<close>\<close>

text \<open>The tool registry: each tool with the \<open>required\<close> list of its input schema.\<close>

definition TOOL_DEFINITIONS :: "(string \<times> string list) list" where
  "TOOL_DEFINITIONS =
     [(''search_and_download_attachments'', [''query'', ''max_results'']),
      (''upload_to_onedrive'', [''local_paths'', ''remote_folder_path'']),
      (''compress_files'', [''local_paths'', ''output_zip'']),
      (''send_zip_via_email'', [''to'', ''subject'', ''body'', ''zip_path'']),
      (''orchestrate_full_pipeline'',
         [''query'', ''max_results'', ''onedrive_folder'', ''recipient_email'', ''zip_name''])]"

text \<open>\<open>for r in required: if r not in data: raise ...\<close>\<close>

fun first_missing :: "string list \<Rightarrow> (string \<times> json) list \<Rightarrow> string option" where
  "first_missing [] data = None"
| "first_missing (r # rs) data =
     (if map_of data r = None then Some r else first_missing rs data)"

text \<open>
  \<open>tempfile.mkdtemp(prefix="mcp_work_")\<close> creates a directory that was not there and
  returns its absolute path.  The environment says which one.
\<close>

definition mkdtemp :: "env \<Rightarrow> string prog" where
  "mkdtemp E w =
     (let k = mkdtemp_name E in
      if present (fs w) k then (Inl (OSError ''[Errno 17] File exists''), w)
      else if \<not> is_dir (fs w) (butlast k)
      then (Inl (FileNotFoundError ''[Errno 2] No such file or directory''), w)
      else (Inr (render k), w\<lparr>fs := fmupd k Dir (fs w), trace := trace w @ [Mkdtemp (render k)]\<rparr>))"

text \<open>\<open>data[key]\<close>\<close>

definition item :: "(string \<times> json) list \<Rightarrow> string \<Rightarrow> json prog" where
  "item data key = (case map_of data key of None \<Rightarrow> raise (KeyError key) | Some v \<Rightarrow> ret v)"

text \<open>\<open>int(v)\<close>\<close>

definition py_int :: "env \<Rightarrow> json \<Rightarrow> int prog" where
  "py_int E v =
     (case v of
        JInt n \<Rightarrow> ret n
      | JBool b \<Rightarrow> ret (if b then 1 else 0)
      | JStr s \<Rightarrow>
          (case int_of_str E s of
             Some n \<Rightarrow> ret n
           | None \<Rightarrow> raise (ValueError (''invalid literal for int() with base 10: '' @ s)))
      | _ \<Rightarrow> raise (TypeError ''int() argument must be a string or a number''))"

text \<open>\<open>s.replace("\\", "/")\<close>\<close>

definition replace_backslash :: "string \<Rightarrow> string" where
  "replace_backslash s = map (\<lambda>c. if c = CHR 0x5C then CHR ''/'' else c) s"

text \<open>Lines 147 to 154: the loop of the upload tool.\<close>

fun upload_loop ::
  "env \<Rightarrow> (string \<times> string) list \<Rightarrow> json \<Rightarrow> json list \<Rightarrow> json list \<Rightarrow> json list prog"
where
  "upload_loop E token remote_folder [] uploaded = ret uploaded"
| "upload_loop E token remote_folder (x # xs) uploaded =
     andThen (as_str x) (\<lambda>lp0.
       (let lp = (if \<not> isabs lp0 then abspath (cwd E) lp0 else lp0) in
        andThen (os_path_exists E lp) (\<lambda>found.
          if \<not> found then raise (HTTPException 400 (''Local file not found: '' @ lp))
          else
            andThen (as_str remote_folder) (\<lambda>folder.
            andThen (upload_file_to_onedrive_path E token lp
                       (replace_backslash (join folder (basename lp)))) (\<lambda>res.
              upload_loop E token remote_folder xs (uploaded @ [res]))))))"

text \<open>Lines 192 to 194: the upload loop of the full pipeline.\<close>

fun pipeline_upload_loop ::
  "env \<Rightarrow> (string \<times> string) list \<Rightarrow> json \<Rightarrow> string list \<Rightarrow> json list \<Rightarrow> json list prog"
where
  "pipeline_upload_loop E token onedrive_folder [] uploaded = ret uploaded"
| "pipeline_upload_loop E token onedrive_folder (fpath # rest) uploaded =
     andThen (as_str onedrive_folder) (\<lambda>folder.
     andThen (upload_file_to_onedrive_path E token fpath
                (replace_backslash (join folder (basename fpath)))) (\<lambda>res.
       pipeline_upload_loop E token onedrive_folder rest (uploaded @ [res])))"

definition endswith_zip :: "string \<Rightarrow> bool" where
  "endswith_zip s = (4 \<le> length s \<and> drop (length s - 4) s = ''.zip'')"

text \<open>The five branches of the \<open>try\<close> block; each returns the payload of the response.\<close>

definition tool_search_and_download ::
  "env \<Rightarrow> (string \<times> json) list \<Rightarrow> string \<Rightarrow> (string \<times> json) list prog"
where
  "tool_search_and_download E data work_dir =
     andThen (item data ''query'') (\<lambda>query.
     andThen (item data ''max_results'') (\<lambda>mr.
     andThen (py_int E mr) (\<lambda>max_results.
     andThen (build_gmail_service E) (\<lambda>service.
     andThen (search_messages_with_attachments E query max_results) (\<lambda>messages.
       if messages = [] then ret [(''downloaded_files'', JList [])]
       else
         andThen (download_attachments_from_messages E messages work_dir) (\<lambda>files.
           ret [(''downloaded_files'', JList (map JStr files))]))))))"

definition tool_upload_to_onedrive ::
  "env \<Rightarrow> (string \<times> json) list \<Rightarrow> string \<Rightarrow> (string \<times> json) list prog"
where
  "tool_upload_to_onedrive E data work_dir =
     andThen (item data ''local_paths'') (\<lambda>local_paths.
     andThen (item data ''remote_folder_path'') (\<lambda>remote_folder.
     andThen (get_onedrive_access_token E) (\<lambda>token.
     andThen (iterate local_paths) (\<lambda>items.
     andThen (upload_loop E token remote_folder items []) (\<lambda>uploaded.
       ret [(''uploaded'', JList uploaded)])))))"

definition tool_compress_files ::
  "env \<Rightarrow> (string \<times> json) list \<Rightarrow> string \<Rightarrow> (string \<times> json) list prog"
where
  "tool_compress_files E data work_dir =
     andThen (item data ''local_paths'') (\<lambda>local_paths.
     andThen (item data ''output_zip'') (\<lambda>oz.
     andThen (as_str oz) (\<lambda>output_zip0.
       (let output_zip = (if \<not> isabs output_zip0 then join work_dir output_zip0 else output_zip0)
        in andThen (compress_files E local_paths output_zip) (\<lambda>_.
             ret [(''zip_path'', JStr output_zip)])))))"

definition tool_send_zip_via_email ::
  "env \<Rightarrow> (string \<times> json) list \<Rightarrow> string \<Rightarrow> (string \<times> json) list prog"
where
  "tool_send_zip_via_email E data work_dir =
     andThen (item data ''to'') (\<lambda>to.
     andThen (item data ''subject'') (\<lambda>subject.
     andThen (item data ''body'') (\<lambda>body.
     andThen (item data ''zip_path'') (\<lambda>zp.
     andThen (build_gmail_service E) (\<lambda>service.
     andThen (as_str zp) (\<lambda>zip_path.
     andThen (send_message_with_attachment E to subject body zip_path) (\<lambda>res.
       ret [(''result'', res)])))))))"

definition tool_orchestrate_full_pipeline ::
  "env \<Rightarrow> (string \<times> json) list \<Rightarrow> string \<Rightarrow> (string \<times> json) list prog"
where
  "tool_orchestrate_full_pipeline E data work_dir =
     andThen (item data ''query'') (\<lambda>query.
     andThen (item data ''max_results'') (\<lambda>mr.
     andThen (py_int E mr) (\<lambda>max_results.
     andThen (item data ''onedrive_folder'') (\<lambda>onedrive_folder.
     andThen (item data ''recipient_email'') (\<lambda>recipient.
     andThen (item data ''zip_name'') (\<lambda>zn.
     andThen (build_gmail_service E) (\<lambda>service.
     andThen (search_messages_with_attachments E query max_results) (\<lambda>messages.
       if messages = []
       then ret [(''status'', JStr ''no_messages_found''), (''downloaded_files'', JList [])]
       else
         andThen (download_attachments_from_messages E messages work_dir) (\<lambda>files.
         andThen (get_onedrive_access_token E) (\<lambda>token.
         andThen (pipeline_upload_loop E token onedrive_folder files []) (\<lambda>uploaded.
         andThen (as_str zn) (\<lambda>zip_name.
           (let zip_path = join work_dir (if endswith_zip zip_name then zip_name
                                           else zip_name @ ''.zip'')
            in
            andThen (compress_files E (JList (map JStr files)) zip_path) (\<lambda>_.
            andThen (send_message_with_attachment E recipient (JStr (''Files: '' @ zip_name))
                       (JStr ''See attached zip.'') zip_path) (\<lambda>send_res.
              ret [(''downloaded_files'', JList (map JStr files)),
                   (''uploaded'', JList uploaded),
                   (''zip_path'', JStr zip_path),
                   (''send_result'', send_res)])))))))))))))))"

definition tool_body ::
  "env \<Rightarrow> string \<Rightarrow> (string \<times> json) list \<Rightarrow> string \<Rightarrow> (string \<times> json) list prog"
where
  "tool_body E tool data work_dir =
     (if tool = ''search_and_download_attachments'' then tool_search_and_download E data work_dir
      else if tool = ''upload_to_onedrive'' then tool_upload_to_onedrive E data work_dir
      else if tool = ''compress_files'' then tool_compress_files E data work_dir
      else if tool = ''send_zip_via_email'' then tool_send_zip_via_email E data work_dir
      else if tool = ''orchestrate_full_pipeline''
      then tool_orchestrate_full_pipeline E data work_dir
      else raise (HTTPException 400 ''Unhandled tool''))"

text \<open>\<open>except Exception as e: raise HTTPException(status_code=500, ...)\<close>\<close>

definition except_Exception :: "env \<Rightarrow> 'a prog \<Rightarrow> 'a prog" where
  "except_Exception E m w =
     (case m w of
        (Inl e, w') \<Rightarrow> (Inl (HTTPException 500 (''Tool execution error: '' @ str_exn E e)), w')
      | r \<Rightarrow> r)"

text \<open>\<open>finally: try: shutil.rmtree(work_dir) except Exception: pass\<close>\<close>

definition cleanup :: "env \<Rightarrow> string \<Rightarrow> world \<Rightarrow> world" where
  "cleanup E work_dir w =
     (case rmtree (fs w) (cwd E) work_dir of
        Inl _ \<Rightarrow> w
      | Inr fs' \<Rightarrow> w\<lparr>fs := fs', trace := trace w @ [Rmtree work_dir]\<rparr>)"

definition try_finally :: "'a prog \<Rightarrow> (world \<Rightarrow> world) \<Rightarrow> 'a prog" where
  "try_finally m c w = (case m w of (r, w') \<Rightarrow> (r, c w'))"

text \<open>
  The handler of \<open>POST /mcp/run\<close>.  An \<open>HTTPException\<close> that leaves it is the response
  the caller gets, with that status and that detail.
\<close>

definition run_tool :: "env \<Rightarrow> string \<Rightarrow> (string \<times> json) list \<Rightarrow> (string \<times> json) list prog" where
  "run_tool E tool data =
     (case map_of TOOL_DEFINITIONS tool of
        None \<Rightarrow> raise (HTTPException 400 (''Unknown tool: '' @ tool))
      | Some required \<Rightarrow>
          (case first_missing required data of
             Some r \<Rightarrow> raise (HTTPException 400 (''Missing required input: '' @ r))
           | None \<Rightarrow>
               andThen (mkdtemp E) (\<lambda>work_dir.
                 try_finally (except_Exception E (tool_body E tool data work_dir))
                         (cleanup E work_dir))))"

section \<open>A sample environment\<close>

text \<open>
  A working directory \<open>/srv\<close> with a token file and one file \<open>a.txt\<close>, a temporary
  directory \<open>/tmp\<close>, a storage provider set up with a client secret, and collaborators
  that answer every call.  The closed examples below run the tools in it.
\<close>

definition sample_creds :: creds where
  "sample_creds = \<lparr>valid = True, expired = False, refresh_token = Some ''r1'', to_json = ''{token}''\<rparr>"

definition sample_message :: message where
  "sample_message =
     \<lparr>msg_id = Some ''m1'',
      payload = Some (Some [\<lparr>filename = Some ''a.txt'', attachmentId = Some ''att1''\<rparr>])\<rparr>"

definition E0 :: env where
  "E0 = \<lparr>cwd = [''srv''],
          config = \<lparr>GOOGLE_CREDENTIALS_FILE = ''credentials.json'',
                     GOOGLE_TOKEN_FILE = ''token.json'',
                     MSFT_CLIENT_SECRET = ''secret'',
                     MSFT_SCOPES = [''https://graph.microsoft.com/.default'']\<rparr>,
          mkdtemp_name = [''tmp'', ''mcp_work_a1''],
          http_exception_str = (\<lambda>st d. show_nat st @ '': '' @ d),
          int_of_str = (\<lambda>s. None),
          urlsafe_b64decode = (\<lambda>s. Inr s),
          from_authorized_user_file = (\<lambda>c. Inr sample_creds),
          run_local_server = (\<lambda>c. Inr sample_creds),
          gmail_build = (\<lambda>c. Inr ()),
          messages_list = (\<lambda>q n. Inr []),
          messages_get = (\<lambda>m. Inr sample_message),
          attachments_get = (\<lambda>m a. Inr (Some ''data'')),
          messages_send = (\<lambda>r. Inr (JStr ''sent1'')),
          get_accounts = [],
          acquire_token_silent = (\<lambda>s a. Inr None),
          acquire_token_for_client = (\<lambda>s. Inr [(''access_token'', ''tok'')]),
          initiate_device_flow = (\<lambda>s. Inr []),
          acquire_token_by_device_flow = (\<lambda>f. Inr []),
          requests_put = (\<lambda>u t c. Inr \<lparr>status_code = 201, resp_text = ''created'',
                                         resp_json = Inr (JObj [(''id'', JStr ''item1'')])\<rparr>)\<rparr>"

definition w0 :: world where
  "w0 = \<lparr>fs = fmap_of_list
                [([''tmp''], Dir), ([''srv''], Dir),
                 ([''srv'', ''token.json''], File (Bytes ''{token}'')),
                 ([''srv'', ''a.txt''], File (Bytes ''hello''))],
          trace = []\<rparr>"

definition upload_missing :: "(string \<times> json) list" where
  "upload_missing =
     [(''local_paths'', JList [JStr ''a.txt'', JStr ''missing.txt'']),
      (''remote_folder_path'', JStr ''Docs'')]"

definition pipeline_required :: "string list" where
  "pipeline_required =
     [''query'', ''max_results'', ''onedrive_folder'', ''recipient_email'', ''zip_name'']"

definition pipeline_input :: "(string \<times> json) list" where
  "pipeline_input =
     [(''query'', JStr ''has:attachment from:a@example.com''), (''max_results'', JInt 10),
      (''onedrive_folder'', JStr ''Docs''), (''recipient_email'', JStr ''b@example.com''),
      (''zip_name'', JStr ''out'')]"

definition upload_only_missing :: "(string \<times> json) list" where
  "upload_only_missing =
     [(''local_paths'', JList [JStr ''missing.txt'']), (''remote_folder_path'', JStr ''Docs'')]"

section \<open>Auxiliary notions for the proofs\<close>

text \<open>Reading a decimal numeral back.\<close>

definition read_nat :: "string \<Rightarrow> nat" where
  "read_nat s = foldl (\<lambda>a c. 10 * a + (of_char c - 48)) 0 s"

text \<open>
  The component of the path \<open>base_j ext\<close> that carries the number \<open>j\<close>: the last
  component of \<open>base\<close>, the suffix, and what \<open>ext\<close> holds up to its first slash.
\<close>

definition name_comp :: "string \<Rightarrow> string \<Rightarrow> nat \<Rightarrow> string" where
  "name_comp base ext j = last (split_slash [] base) @ ''_'' @ show_nat j @ hd (split_slash [] ext)"

text \<open>The events of the stages that follow the search, and what a program may log.\<close>

fun later_stage :: "event \<Rightarrow> bool" where
  "later_stage (AttachmentsGet m a) = True"
| "later_stage GetAccounts = True"
| "later_stage AcquireTokenSilent = True"
| "later_stage AcquireTokenForClient = True"
| "later_stage InitiateDeviceFlow = True"
| "later_stage AcquireTokenByDeviceFlow = True"
| "later_stage (RequestsPut u t c) = True"
| "later_stage (ZipOpen k) = True"
| "later_stage (ZipWrite k a) = True"
| "later_stage (MessagesSend r) = True"
| "later_stage ev = False"

definition emits :: "(event \<Rightarrow> bool) \<Rightarrow> 'a prog \<Rightarrow> bool" where
  "emits P m = (\<forall>w. \<exists>new. trace (snd (m w)) = trace w @ new \<and> list_all P new)"

section \<open>Decimal numerals and path components\<close>

lemma read_nat_snoc: "read_nat (s @ [c]) = 10 * read_nat s + (of_char c - 48)"
  by (simp add: read_nat_def)

lemma digit_cases:
  "d < 10 \<Longrightarrow> d = 0 \<or> d = 1 \<or> d = 2 \<or> d = 3 \<or> d = 4 \<or> d = 5 \<or> d = 6 \<or> d = 7 \<or> d = 8 \<or> d = (9::nat)"
  by arith

lemma of_char_digit: "d < 10 \<Longrightarrow> (of_char (digit d) :: nat) - 48 = d"
  using digit_cases [of d] by (auto simp: digit_def)

lemma show_nat_small: "n < 10 \<Longrightarrow> show_nat n = [digit n]"
  by (subst show_nat.simps) simp

lemma show_nat_big: "\<not> n < 10 \<Longrightarrow> show_nat n = show_nat (n div 10) @ [digit (n mod 10)]"
  by (subst show_nat.simps) simp

lemma read_show_nat: "read_nat (show_nat n) = n"
proof (induction n rule: show_nat.induct)
  case (1 n)
  show ?case
  proof (cases "n < 10")
    case True
    then show ?thesis
      by (simp add: show_nat_small of_char_digit read_nat_def)
  next
    case False
    then have "read_nat (show_nat n) = 10 * read_nat (show_nat (n div 10)) + (of_char (digit (n mod 10)) - 48)"
      by (simp add: show_nat_big read_nat_snoc)
    with False 1 show ?thesis by (simp add: of_char_digit)
  qed
qed

lemma show_nat_inj: "show_nat m = show_nat n \<Longrightarrow> m = n"
  by (metis read_show_nat)

lemma digit_not_slash: "d < 10 \<Longrightarrow> digit d \<noteq> CHR ''/''"
  using digit_cases [of d] by (auto simp: digit_def)

lemma show_nat_no_slash: "CHR ''/'' \<notin> set (show_nat n)"
proof (induction n rule: show_nat.induct)
  case (1 n)
  show ?case
  proof (cases "n < 10")
    case True
    then show ?thesis using digit_not_slash [of n] by (simp add: show_nat_small)
  next
    case False
    then have "set (show_nat n) = set (show_nat (n div 10)) \<union> {digit (n mod 10)}"
      by (simp add: show_nat_big)
    with False 1 digit_not_slash [of "n mod 10"] show ?thesis by auto
  qed
qed

lemma split_slash_nonempty: "split_slash acc s \<noteq> []"
  by (induction s arbitrary: acc) auto

lemma split_slash_append:
  "split_slash acc (s @ t) =
     butlast (split_slash acc s) @ split_slash (rev (last (split_slash acc s))) t"
  by (induction s arbitrary: acc) (auto simp: split_slash_nonempty)

lemma split_slash_acc:
  "split_slash acc t = (rev acc @ hd (split_slash [] t)) # tl (split_slash [] t)"
proof (induction t arbitrary: acc)
  case Nil
  show ?case by simp
next
  case (Cons c t)
  show ?case
  proof (cases "c = CHR ''/''")
    case True
    then show ?thesis by simp
  next
    case False
    have a: "split_slash (c # acc) t = (rev (c # acc) @ hd (split_slash [] t)) # tl (split_slash [] t)"
      by (rule Cons)
    have b: "split_slash [c] t = (rev [c] @ hd (split_slash [] t)) # tl (split_slash [] t)"
      by (rule Cons)
    from False show ?thesis by (simp add: a b)
  qed
qed

lemma split_slash_no_slash: "CHR ''/'' \<notin> set t \<Longrightarrow> split_slash acc t = [rev acc @ t]"
  by (induction t arbitrary: acc) auto

lemma split_slash_name:
  "split_slash [] (base @ ''_'' @ show_nat j @ ext) =
     butlast (split_slash [] base) @ name_comp base ext j # tl (split_slash [] ext)"
proof -
  have "CHR ''/'' \<notin> set (''_'' @ show_nat j)" using show_nat_no_slash by simp
  then have m: "split_slash acc (''_'' @ show_nat j) = [rev acc @ ''_'' @ show_nat j]" for acc
    by (rule split_slash_no_slash)
  have "split_slash [] (base @ (''_'' @ show_nat j) @ ext) =
        butlast (split_slash [] base) @
          split_slash (rev (last (split_slash [] base))) ((''_'' @ show_nat j) @ ext)"
    by (rule split_slash_append)
  also have "split_slash (rev (last (split_slash [] base))) ((''_'' @ show_nat j) @ ext) =
        split_slash (rev (last (split_slash [] base) @ ''_'' @ show_nat j)) ext"
    by (subst split_slash_append) (simp only: m, simp)
  also have "\<dots> = name_comp base ext j # tl (split_slash [] ext)"
    by (subst split_slash_acc) (simp add: name_comp_def)
  finally show ?thesis by simp
qed

lemma name_comp_inj: "name_comp base ext i = name_comp base ext j \<Longrightarrow> i = j"
proof -
  assume a: "name_comp base ext i = name_comp base ext j"
  have "length (show_nat i) = length (show_nat j)"
    using arg_cong [OF a, of length] by (simp add: name_comp_def)
  with a have "show_nat i = show_nat j" by (simp add: name_comp_def)
  then show ?thesis by (rule show_nat_inj)
qed

lemma name_comp_regular:
  "name_comp base ext j \<noteq> []" "name_comp base ext j \<noteq> ''.''" "name_comp base ext j \<noteq> ''..''"
proof -
  have u: "CHR ''_'' \<in> set (name_comp base ext j)" by (simp add: name_comp_def)
  show "name_comp base ext j \<noteq> []" using u by auto
  show "name_comp base ext j \<noteq> ''.''" using u by auto
  show "name_comp base ext j \<noteq> ''..''" using u by auto
qed

lemma walk_append:
  "walk F cur (xs @ ys) = (case walk F cur xs of None \<Rightarrow> None | Some c \<Rightarrow> walk F c ys)"
  by (induction xs arbitrary: cur) auto

lemma is_dir_present: "is_dir F k \<Longrightarrow> present F k"
  by (auto simp: is_dir_def present_def)

lemma walk_present_start: "walk F c R = Some k \<Longrightarrow> present F k \<Longrightarrow> present F c"
  by (induction R arbitrary: c) (auto split: if_splits simp: is_dir_present)


lemma exists_name_present:
  assumes "exists F wd (base @ ''_'' @ show_nat j @ ext)"
  shows "\<exists>c. walk F (if isabs (base @ ''_'') then [] else wd) (butlast (split_slash [] base)) = Some c \<and>
             c @ [name_comp base ext j] \<in> fmdom' F"
proof -
  let ?p = "base @ ''_'' @ show_nat j @ ext"
  have abs: "isabs ?p = isabs (base @ ''_'')" by (cases base) (simp_all add: isabs_def)
  from assms obtain k where k: "resolve F wd ?p = Some k" and pk: "present F k"
    by (auto simp: exists_def split: option.splits)
  from k have w: "walk F (if isabs (base @ ''_'') then [] else wd)
       (butlast (split_slash [] base) @ name_comp base ext j # tl (split_slash [] ext)) = Some k"
    unfolding resolve_def abs [symmetric] split_slash_name [symmetric] by (simp split: if_splits)
  then obtain c where c: "walk F (if isabs (base @ ''_'') then [] else wd) (butlast (split_slash [] base)) = Some c"
    and w2: "walk F c (name_comp base ext j # tl (split_slash [] ext)) = Some k"
    by (auto simp: walk_append split: option.splits)
  from w2 have "walk F (c @ [name_comp base ext j]) (tl (split_slash [] ext)) = Some k"
    using name_comp_regular [of base ext j] by (simp split: if_splits)
  then have "present F (c @ [name_comp base ext j])" using pk by (rule walk_present_start)
  then have "c @ [name_comp base ext j] \<in> fmdom' F"
    by (auto simp: present_def fmlookup_dom'_iff)
  with c show ?thesis by blast
qed

lemma finite_names: "finite {j. exists F wd (base @ ''_'' @ show_nat j @ ext)}"
proof (cases "walk F (if isabs (base @ ''_'') then [] else wd) (butlast (split_slash [] base))")
  case None
  then have "{j. exists F wd (base @ ''_'' @ show_nat j @ ext)} = {}"
    using exists_name_present [of F wd base _ ext] by auto
  then show ?thesis by simp
next
  case (Some c)
  have "inj (\<lambda>j. c @ [name_comp base ext j])"
    by (auto simp: inj_def dest: name_comp_inj)
  then have "finite ((\<lambda>j. c @ [name_comp base ext j]) -` fmdom' F)"
    by (intro finite_vimageI) simp_all
  moreover have "{j. exists F wd (base @ ''_'' @ show_nat j @ ext)} \<subseteq> (\<lambda>j. c @ [name_comp base ext j]) -` fmdom' F"
    using exists_name_present [of F wd base _ ext] Some by auto
  ultimately show ?thesis by (rule rev_finite_subset)
qed

termination unique_path
proof (relation "measure (\<lambda>(F, wd, base, ext, i, save_path).
          2 * card {j. i \<le> j \<and> exists F wd (base @ ''_'' @ show_nat j @ ext)}
          + (if exists F wd save_path then 1 else 0))", goal_cases)
  case 1
  show ?case by simp
next
  case (2 F wd base ext i save_path)
  let ?S = "\<lambda>i. {j. i \<le> j \<and> exists F wd (base @ ''_'' @ show_nat j @ ext)}"
  have fin: "finite (?S n)" for n
    by (rule finite_subset [OF _ finite_names [of F wd base ext]]) auto
  show ?case
  proof (cases "exists F wd (base @ ''_'' @ show_nat i @ ext)")
    case True
    then have "?S i = insert i (?S (i + 1))" by (auto simp: le_Suc_eq)
    then have "card (?S i) = Suc (card (?S (i + 1)))"
      using fin [of "i + 1"] by simp
    with 2 True show ?thesis by simp
  next
    case False
    then have "?S i = ?S (i + 1)" by (auto simp: le_Suc_eq) (metis Suc_leI le_neq_implies_less)
    with 2 False show ?thesis by simp
  qed
qed

declare unique_path.simps [simp del]

section \<open>Programs: basic facts\<close>

lemma andThen_ret [simp]: "andThen (ret x) f w = f x w"
  by (simp add: andThen_def ret_def)

lemma andThen_raise [simp]: "andThen (raise e) f w = (Inl e, w)"
  by (simp add: andThen_def raise_def)

lemma andThen_Inl: "m w = (Inl e, w') \<Longrightarrow> andThen m f w = (Inl e, w')"
  by (simp add: andThen_def)

lemma andThen_Inr: "m w = (Inr x, w') \<Longrightarrow> andThen m f w = f x w'"
  by (simp add: andThen_def)

section \<open>Input validation\<close>

lemma first_missing_find:
  "first_missing required data = find (\<lambda>r. map_of data r = None) required"
  by (induction required) auto

lemma find_Some_ex: "\<exists>x \<in> set xs. P x \<Longrightarrow> \<exists>y. find P xs = Some y"
  by (induction xs) auto

text \<open>
  C4.  When a required field of a registered tool is absent from the input, the
  invocation raises \<open>HTTPException(400, "Missing required input: r")\<close>, where \<open>r\<close> is
  the first absent field in the order of the schema's \<open>required\<close> list, and the world
  is left as it was: nothing is logged (no call to a collaborator, no \<open>mkdtemp\<close>) and the
  file system is unchanged.
\<close>

theorem C4_missing_input:
  assumes "map_of TOOL_DEFINITIONS tool = Some required"
    and "\<exists>r \<in> set required. map_of data r = None"
  shows "\<exists>r. find (\<lambda>r. map_of data r = None) required = Some r \<and>
             run_tool E tool data w =
               (Inl (HTTPException 400 (''Missing required input: '' @ r)), w)"
proof -
  from assms(2) obtain r where r: "find (\<lambda>r. map_of data r = None) required = Some r"
    using find_Some_ex [of required "\<lambda>r. map_of data r = None"] by blast
  then have "first_missing required data = Some r" by (simp add: first_missing_find)
  with assms(1) have "run_tool E tool data w =
      (Inl (HTTPException 400 (''Missing required input: '' @ r)), w)"
    by (simp add: run_tool_def raise_def)
  with r show ?thesis by blast
qed

theorem C4_missing_input_witness:
  "map_of TOOL_DEFINITIONS ''send_zip_via_email'' = Some [''to'', ''subject'', ''body'', ''zip_path'']
   \<and> find (\<lambda>r. map_of [(''to'', JStr ''a@example.com''), (''zip_path'', JStr ''x.zip'')] r = None)
        [''to'', ''subject'', ''body'', ''zip_path''] = Some ''subject''
   \<and> run_tool E0 ''send_zip_via_email''
         [(''to'', JStr ''a@example.com''), (''zip_path'', JStr ''x.zip'')] w0 =
       (Inl (HTTPException 400 ''Missing required input: subject''), w0)"
  using C4_missing_input [of "''send_zip_via_email''" "[''to'', ''subject'', ''body'', ''zip_path'']"
      "[(''to'', JStr ''a@example.com''), (''zip_path'', JStr ''x.zip'')]" E0 w0]
  by (simp add: TOOL_DEFINITIONS_def)

section \<open>Evaluation of the closed examples\<close>

lemmas prog_defs = ret_def raise_def andThen_def emit_def call_def change_fs_def lift_def
  os_path_exists_def open_read_def open_write_def os_makedirs_def try_finally_def
  except_Exception_def cleanup_def item_def as_str_def iterate_def

lemmas fs_defs = exists_def resolve_def isabs_def present_def is_dir_def write_file_def
  read_file_def makedirs_def rmtree_def fmlookup_of_list abspath_def

lemmas sample_defs = E0_def w0_def sample_creds_def sample_message_def TOOL_DEFINITIONS_def
  show_nat_small show_nat_big digit_def

section \<open>The error contract of the handler\<close>

text \<open>
  C10.  Past validation, whatever the tool branch raises, an \<open>HTTPException\<close> with a
  client-error status included, leaves the handler as
  \<open>HTTPException(500, "Tool execution error: " + str(e))\<close>, after the cleanup of the
  workspace.  A response with status 400 comes from the two checks in front of the
  \<open>try\<close> block only: the unknown tool and the missing required input, both with the
  world untouched.
\<close>

theorem C10_client_errors_become_500:
  "(\<forall>required wd e.
       map_of TOOL_DEFINITIONS tool = Some required \<longrightarrow>
       first_missing required data = None \<longrightarrow>
       fst (mkdtemp E w) = Inr wd \<longrightarrow>
       fst (tool_body E tool data wd (snd (mkdtemp E w))) = Inl e \<longrightarrow>
       run_tool E tool data w =
         (Inl (HTTPException 500 (''Tool execution error: '' @ str_exn E e)),
          cleanup E wd (snd (tool_body E tool data wd (snd (mkdtemp E w))))))
   \<and> (\<forall>d w'. run_tool E tool data w = (Inl (HTTPException 400 d), w') \<longrightarrow>
          w' = w \<and>
          (map_of TOOL_DEFINITIONS tool = None \<and> d = ''Unknown tool: '' @ tool \<or>
           (\<exists>required r. map_of TOOL_DEFINITIONS tool = Some required \<and>
                first_missing required data = Some r \<and>
                d = ''Missing required input: '' @ r)))"
proof (intro conjI allI impI)
  fix required wd e
  assume v: "map_of TOOL_DEFINITIONS tool = Some required" "first_missing required data = None"
    and m: "fst (mkdtemp E w) = Inr wd"
    and t: "fst (tool_body E tool data wd (snd (mkdtemp E w))) = Inl e"
  obtain w1 where m': "mkdtemp E w = (Inr wd, w1)"
    using m by (cases "mkdtemp E w") simp
  with t obtain w2 where t': "tool_body E tool data wd w1 = (Inl e, w2)"
    by (cases "tool_body E tool data wd w1") simp
  from v m' t' show "run_tool E tool data w =
         (Inl (HTTPException 500 (''Tool execution error: '' @ str_exn E e)),
          cleanup E wd (snd (tool_body E tool data wd (snd (mkdtemp E w)))))"
    by (simp add: run_tool_def andThen_def try_finally_def except_Exception_def)
next
  fix d w'
  assume a: "run_tool E tool data w = (Inl (HTTPException 400 d), w')"
  then show "w' = w"
    by (auto simp: run_tool_def raise_def andThen_def try_finally_def except_Exception_def
        mkdtemp_def Let_def split: option.splits prod.splits sum.splits if_splits)
  from a show "map_of TOOL_DEFINITIONS tool = None \<and> d = ''Unknown tool: '' @ tool \<or>
           (\<exists>required r. map_of TOOL_DEFINITIONS tool = Some required \<and>
                first_missing required data = Some r \<and>
                d = ''Missing required input: '' @ r)"
    by (auto simp: run_tool_def raise_def andThen_def try_finally_def except_Exception_def
        mkdtemp_def Let_def split: option.splits prod.splits sum.splits if_splits)
qed

lemma upload_missing_body: "fst (tool_body E0 ''upload_to_onedrive'' upload_missing ''/tmp/mcp_work_a1''
            (snd (mkdtemp E0 w0))) =
       Inl (HTTPException 400 ''Local file not found: /srv/missing.txt'')"
    by (simp add: upload_missing_def tool_body_def tool_upload_to_onedrive_def mkdtemp_def
        get_onedrive_access_token_def upload_file_to_onedrive_path_def
        prog_defs fs_defs sample_defs Let_def)

theorem C10_client_errors_become_500_witness:
  "fst (tool_body E0 ''upload_to_onedrive'' upload_missing ''/tmp/mcp_work_a1''
            (snd (mkdtemp E0 w0))) =
       Inl (HTTPException 400 ''Local file not found: /srv/missing.txt'')
   \<and> fst (run_tool E0 ''upload_to_onedrive'' upload_missing w0) =
       Inl (HTTPException 500
              ''Tool execution error: 400: Local file not found: /srv/missing.txt'')
   \<and> run_tool E0 ''no_such_tool'' [] w0 = (Inl (HTTPException 400 ''Unknown tool: no_such_tool''), w0)"
proof -
  have m: "fst (mkdtemp E0 w0) = Inr ''/tmp/mcp_work_a1''"
    by (simp add: mkdtemp_def prog_defs fs_defs sample_defs Let_def)
  have v: "map_of TOOL_DEFINITIONS ''upload_to_onedrive'' = Some [''local_paths'', ''remote_folder_path'']"
    "first_missing [''local_paths'', ''remote_folder_path''] upload_missing = None"
    by (simp_all add: TOOL_DEFINITIONS_def upload_missing_def)
  have s: "str_exn E0 (HTTPException 400 ''Local file not found: /srv/missing.txt'') =
      ''400: Local file not found: /srv/missing.txt''"
    by (simp add: sample_defs)
  have u: "run_tool E0 ''no_such_tool'' [] w0 = (Inl (HTTPException 400 ''Unknown tool: no_such_tool''), w0)"
    by (simp add: run_tool_def TOOL_DEFINITIONS_def raise_def)
  from C10_client_errors_become_500 [of "''upload_to_onedrive''" upload_missing E0 w0] v m upload_missing_body s u
  show ?thesis by simp
qed

section \<open>What a program logs\<close>

lemma emitsI: "(\<And>w. \<exists>new. trace (snd (m w)) = trace w @ new \<and> list_all P new) \<Longrightarrow> emits P m"
  by (simp add: emits_def)

lemma emitsD: "emits P m \<Longrightarrow> \<exists>new. trace (snd (m w)) = trace w @ new \<and> list_all P new"
  by (simp add: emits_def)

lemma emits_ret [intro!, simp]: "emits P (ret x)"
  by (simp add: emits_def ret_def)

lemma emits_raise [intro!, simp]: "emits P (raise e)"
  by (simp add: emits_def raise_def)

lemma emits_lift [intro!, simp]: "emits P (lift r)"
  by (simp add: emits_def lift_def)

lemma emits_as_str [intro!, simp]: "emits P (as_str v)"
  by (cases v) (simp_all add: as_str_def)

lemma emits_item [intro!, simp]: "emits P (item data k)"
  by (simp add: item_def split: option.splits)

lemma emits_py_int [intro!, simp]: "emits P (py_int E v)"
  by (cases v) (simp_all add: py_int_def split: option.splits)

lemma emits_iterate [intro!, simp]: "emits P (iterate v)"
  by (cases v) (simp_all add: iterate_def)

lemma emits_call [intro!]: "P ev \<Longrightarrow> emits P (call ev r)"
  by (simp add: emits_def call_def)

lemma emits_emit [intro!]: "P ev \<Longrightarrow> emits P (emit ev)"
  by (simp add: emits_def emit_def)

lemma emits_os_path_exists [intro!, simp]: "emits P (os_path_exists E p)"
  by (simp add: emits_def os_path_exists_def)

lemma emits_open_read [intro!, simp]: "emits P (open_read E p)"
  by (simp add: emits_def open_read_def)

lemma emits_open_write [intro!]: "(\<And>k. P (WriteFile k)) \<Longrightarrow> emits P (open_write E p c)"
  by (auto simp: emits_def open_write_def split: sum.splits option.splits)

lemma emits_andThen [intro!]:
  assumes "emits P m" and "\<And>x. emits P (f x)"
  shows "emits P (andThen m f)"
proof (rule emitsI)
  fix w
  obtain r w1 where m: "m w = (r, w1)" by fastforce
  from emitsD [OF assms(1), of w] m obtain n1 where n1: "trace w1 = trace w @ n1" "list_all P n1"
    by auto
  show "\<exists>new. trace (snd (andThen m f w)) = trace w @ new \<and> list_all P new"
  proof (cases r)
    case (Inl e)
    with m n1 show ?thesis by (auto simp: andThen_def)
  next
    case (Inr x)
    from emitsD [OF assms(2), of x w1] obtain n2 where
      "trace (snd (f x w1)) = trace w1 @ n2" "list_all P n2" by auto
    with m n1 Inr show ?thesis by (auto simp: andThen_def)
  qed
qed

lemma emits_except_HttpError [intro!]: "emits P m \<Longrightarrow> emits P (except_HttpError m)"
proof (rule emitsI)
  fix w
  assume "emits P m"
  from emitsD [OF this, of w]
  show "\<exists>new. trace (snd (except_HttpError m w)) = trace w @ new \<and> list_all P new"
    by (auto simp: except_HttpError_def split: prod.splits sum.splits exn.splits)
qed

lemma emits_local_flow:
  "P RunLocalServer \<Longrightarrow> (\<And>k. P (WriteFile k)) \<Longrightarrow> emits P (local_flow E)"
  by (auto simp: local_flow_def)

lemma emits_build_gmail_service:
  assumes "P RunLocalServer" "P GmailBuild" "\<And>k. P (WriteFile k)"
  shows "emits P (build_gmail_service E)"
  by (auto simp: build_gmail_service_def refresh_def assms intro!: emits_local_flow
      split: option.splits)

lemma emits_search_loop:
  "(\<And>m. P (MessagesGet m)) \<Longrightarrow> emits P (search_loop E ms found)"
  by (induction ms arbitrary: found) auto

lemma emits_search:
  "(\<And>q n. P (MessagesList q n)) \<Longrightarrow> (\<And>m. P (MessagesGet m)) \<Longrightarrow>
   emits P (search_messages_with_attachments E query max_results)"
  by (auto simp: search_messages_with_attachments_def intro!: emits_search_loop)

section \<open>The full pipeline without messages\<close>

lemma first_missing_None:
  "first_missing rs data = None \<Longrightarrow> r \<in> set rs \<Longrightarrow> \<exists>v. map_of data r = Some v"
  by (induction rs) (auto split: if_splits)

lemma trace_mkdtemp:
  "fst (mkdtemp E w) = Inr wd \<Longrightarrow> trace (snd (mkdtemp E w)) = trace w @ [Mkdtemp wd]"
  by (auto simp: mkdtemp_def Let_def split: if_splits)

lemma trace_cleanup:
  "trace (cleanup E wd w) = trace w \<or> trace (cleanup E wd w) = trace w @ [Rmtree wd]"
  by (auto simp: cleanup_def split: sum.splits)

text \<open>
  C1.  When the search of the full pipeline returns no message, the handler returns the
  payload \<open>{"status": "no_messages_found", "downloaded_files": []}\<close>: a success, with
  an empty file list and no upload, archive or send field in it.  Nothing of a later
  stage is logged: no attachment fetch, no token acquisition for the storage provider,
  no upload request, no archive, no send.
\<close>

theorem C1_no_messages:
  assumes v: "first_missing pipeline_required data = None"
    and m: "fst (mkdtemp E w) = Inr wd"
    and q: "map_of data ''query'' = Some query"
    and r: "map_of data ''max_results'' = Some mr"
    and n: "fst (py_int E mr (snd (mkdtemp E w))) = Inr max_results"
    and b: "fst (build_gmail_service E (snd (mkdtemp E w))) = Inr service"
    and s: "fst (search_messages_with_attachments E query max_results
                   (snd (build_gmail_service E (snd (mkdtemp E w))))) = Inr []"
  shows "fst (run_tool E ''orchestrate_full_pipeline'' data w) =
           Inr [(''status'', JStr ''no_messages_found''), (''downloaded_files'', JList [])]
         \<and> (\<exists>new. trace (snd (run_tool E ''orchestrate_full_pipeline'' data w)) = trace w @ new
                  \<and> (\<forall>ev \<in> set new. \<not> later_stage ev))"
proof -
  from v obtain od rc zn where items:
    "map_of data ''onedrive_folder'' = Some od" "map_of data ''recipient_email'' = Some rc"
    "map_of data ''zip_name'' = Some zn"
    using first_missing_None [OF v, of "''onedrive_folder''"]
      first_missing_None [OF v, of "''recipient_email''"]
      first_missing_None [OF v, of "''zip_name''"]
    by (auto simp: pipeline_required_def)
  obtain w1 where m': "mkdtemp E w = (Inr wd, w1)"
    using m by (cases "mkdtemp E w") simp
  have n': "py_int E mr w1 = (Inr max_results, w1)"
    using n m' by (cases mr) (auto simp: py_int_def ret_def raise_def split: option.splits)
  obtain w2 where b': "build_gmail_service E w1 = (Inr service, w2)"
    using b m' by (cases "build_gmail_service E w1") simp
  obtain w3 where s': "search_messages_with_attachments E query max_results w2 = (Inr [], w3)"
    using s m' b' by (cases "search_messages_with_attachments E query max_results w2") simp
  have body: "tool_orchestrate_full_pipeline E data wd w1 =
      (Inr [(''status'', JStr ''no_messages_found''), (''downloaded_files'', JList [])], w3)"
    by (simp add: tool_orchestrate_full_pipeline_def item_def q r items andThen_def n' b' s'
        ret_def)
  have run: "run_tool E ''orchestrate_full_pipeline'' data w =
      (Inr [(''status'', JStr ''no_messages_found''), (''downloaded_files'', JList [])],
       cleanup E wd w3)"
    using v by (simp add: run_tool_def TOOL_DEFINITIONS_def pipeline_required_def
        andThen_def m' try_finally_def except_Exception_def tool_body_def body)
  have P: "emits (\<lambda>ev. \<not> later_stage ev) (build_gmail_service E)"
    "emits (\<lambda>ev. \<not> later_stage ev) (search_messages_with_attachments E query max_results)"
    by (auto intro!: emits_build_gmail_service emits_search)
  from emitsD [OF P(1), of w1] b' obtain n2 where
    n2: "trace w2 = trace w1 @ n2" "list_all (\<lambda>ev. \<not> later_stage ev) n2" by auto
  from emitsD [OF P(2), of w2] s' obtain n3 where
    n3: "trace w3 = trace w2 @ n3" "list_all (\<lambda>ev. \<not> later_stage ev) n3" by auto
  have t3: "trace w3 = trace w @ (Mkdtemp wd # n2 @ n3)"
    using trace_mkdtemp [OF m] m' n2 n3 by simp
  have ok: "\<forall>ev \<in> set (Mkdtemp wd # n2 @ n3 @ [Rmtree wd]). \<not> later_stage ev"
    using n2 n3 by (auto simp: list_all_iff)
  have "\<exists>new. trace (cleanup E wd w3) = trace w @ new \<and> (\<forall>ev \<in> set new. \<not> later_stage ev)"
    using trace_cleanup [of E wd w3]
  proof
    assume "trace (cleanup E wd w3) = trace w3"
    with t3 ok show ?thesis by (intro exI [of _ "Mkdtemp wd # n2 @ n3"]) simp
  next
    assume "trace (cleanup E wd w3) = trace w3 @ [Rmtree wd]"
    with t3 ok show ?thesis by (intro exI [of _ "Mkdtemp wd # n2 @ n3 @ [Rmtree wd]"]) simp
  qed
  with run show ?thesis by simp
qed

lemma sample_mkdtemp: "mkdtemp E0 w0 = (Inr ''/tmp/mcp_work_a1'',
    w0\<lparr>fs := fmupd [''tmp'', ''mcp_work_a1''] Dir (fs w0), trace := [Mkdtemp ''/tmp/mcp_work_a1'']\<rparr>)"
  by (simp add: mkdtemp_def prog_defs fs_defs sample_defs Let_def)

theorem C1_no_messages_witness:
  "fst (run_tool E0 ''orchestrate_full_pipeline'' pipeline_input w0) =
     Inr [(''status'', JStr ''no_messages_found''), (''downloaded_files'', JList [])]
   \<and> trace (snd (run_tool E0 ''orchestrate_full_pipeline'' pipeline_input w0)) =
       [Mkdtemp ''/tmp/mcp_work_a1'', GmailBuild,
        MessagesList (JStr ''has:attachment from:a@example.com'') 10,
        Rmtree ''/tmp/mcp_work_a1'']"
proof -
  have b: "fst (build_gmail_service E0 (snd (mkdtemp E0 w0))) = Inr sample_creds"
    by (simp only: sample_mkdtemp snd_conv)
       (simp add: build_gmail_service_def prog_defs fs_defs sample_defs)
  have s: "fst (search_messages_with_attachments E0 (JStr ''has:attachment from:a@example.com'') 10
                   (snd (build_gmail_service E0 (snd (mkdtemp E0 w0))))) = Inr []"
    by (simp add: search_messages_with_attachments_def except_HttpError_def prog_defs E0_def)
  have t: "trace (snd (run_tool E0 ''orchestrate_full_pipeline'' pipeline_input w0)) =
       [Mkdtemp ''/tmp/mcp_work_a1'', GmailBuild,
        MessagesList (JStr ''has:attachment from:a@example.com'') 10,
        Rmtree ''/tmp/mcp_work_a1'']"
    by (simp add: run_tool_def pipeline_input_def tool_body_def tool_orchestrate_full_pipeline_def
        mkdtemp_def build_gmail_service_def search_messages_with_attachments_def
        except_HttpError_def py_int_def prog_defs fs_defs sample_defs Let_def)
  from C1_no_messages [of pipeline_input E0 w0 "''/tmp/mcp_work_a1''"
      "JStr ''has:attachment from:a@example.com''" "JInt 10" 10 sample_creds] b s t
  show ?thesis
    by (simp only: sample_mkdtemp fst_conv snd_conv)
       (simp add: pipeline_input_def pipeline_required_def py_int_def ret_def)
qed

section \<open>The upload tool and a missing local file\<close>

text \<open>Lines 148 and 149: the path as the loop goes on with it.\<close>

definition absolute :: "env \<Rightarrow> string \<Rightarrow> string" where
  "absolute E lp = (if \<not> isabs lp then abspath (cwd E) lp else lp)"

lemma andThen_assoc: "andThen (andThen m f) g = andThen m (\<lambda>x. andThen (f x) g)"
  by (rule ext) (simp add: andThen_def split: prod.splits sum.splits)

lemma andThen_ret_fun: "andThen (ret x) f = f x"
  by (rule ext) simp

lemma andThen_raise_fun: "andThen (raise e) f = raise e"
  by (rule ext) (simp add: raise_def)

lemma andThen_if: "andThen (if c then a else b) g = (if c then andThen a g else andThen b g)"
  by simp

lemma upload_loop_append:
  "upload_loop E token rf (xs @ ys) acc =
     andThen (upload_loop E token rf xs acc) (upload_loop E token rf ys)"
  by (induction xs arbitrary: acc)
     (simp_all add: andThen_assoc andThen_ret_fun andThen_raise_fun andThen_if Let_def
        cong: if_cong)

lemma upload_loop_missing:
  assumes "\<not> exists (fs w) (cwd E) (absolute E lp)"
  shows "upload_loop E token rf (JStr lp # rest) acc w =
           (Inl (HTTPException 400 (''Local file not found: '' @ absolute E lp)), w)"
  using assms
  by (simp add: as_str_def os_path_exists_def andThen_def ret_def raise_def absolute_def Let_def)

lemma trace_call_first:
  assumes "\<And>x. emits P (f x)"
  shows "\<exists>new. trace (snd (andThen (call ev r) f w)) = trace w @ ev # new"
proof (cases r)
  case (Inl e)
  then show ?thesis by (simp add: andThen_def call_def)
next
  case (Inr x)
  from emitsD [OF assms, of x "w\<lparr>trace := trace w @ [ev]\<rparr>"] Inr
  show ?thesis by (auto simp: andThen_def call_def)
qed

lemma trace_token_starts:
  "\<exists>new. trace (snd (get_onedrive_access_token E w)) = trace w @ GetAccounts # new"
  unfolding get_onedrive_access_token_def Let_def
  by (rule trace_call_first [where P = "\<lambda>_. True"])
     (auto split: list.splits option.splits)

text \<open>
  C2, as the code has it.  The upload tool acquires the storage token first (a call to
  the identity provider, logged as \<open>GetAccounts\<close> and what follows), and checks each
  local path only when the loop reaches it.  So when the token is there, the paths in
  front of a missing one exist and are uploaded, the handler fails at the missing path
  with \<open>HTTPException(400, "Local file not found: <absolute path>")\<close>, which the blanket
  handler turns into a status-500 response.  No upload request is made for the missing
  path or any path after it: the world at the failure is the one the preceding uploads
  left, and only the cleanup follows.
\<close>

theorem C2_upload_missing_after_token:
  assumes l: "map_of data ''local_paths'' = Some (JList (map JStr (pre @ lp # post)))"
    and f: "map_of data ''remote_folder_path'' = Some rf"
    and m: "fst (mkdtemp E w) = Inr wd"
    and t: "fst (get_onedrive_access_token E (snd (mkdtemp E w))) = Inr token"
    and u: "fst (upload_loop E token rf (map JStr pre) []
                  (snd (get_onedrive_access_token E (snd (mkdtemp E w))))) = Inr uploaded"
    and x: "\<not> exists (fs (snd (upload_loop E token rf (map JStr pre) []
                  (snd (get_onedrive_access_token E (snd (mkdtemp E w)))))))
               (cwd E) (absolute E lp)"
  shows "run_tool E ''upload_to_onedrive'' data w =
           (Inl (HTTPException 500 (''Tool execution error: '' @
                   http_exception_str E 400 (''Local file not found: '' @ absolute E lp))),
            cleanup E wd (snd (upload_loop E token rf (map JStr pre) []
                  (snd (get_onedrive_access_token E (snd (mkdtemp E w)))))))
         \<and> (\<exists>new. trace (snd (get_onedrive_access_token E (snd (mkdtemp E w)))) =
                    trace (snd (mkdtemp E w)) @ GetAccounts # new)"
proof -
  obtain w1 where m': "mkdtemp E w = (Inr wd, w1)"
    using m by (cases "mkdtemp E w") simp
  obtain w2 where t': "get_onedrive_access_token E w1 = (Inr token, w2)"
    using t m' by (cases "get_onedrive_access_token E w1") simp
  obtain w3 where u': "upload_loop E token rf (map JStr pre) [] w2 = (Inr uploaded, w3)"
    using u m' t' by (cases "upload_loop E token rf (map JStr pre) [] w2") simp
  from x m' t' u' have x': "\<not> exists (fs w3) (cwd E) (absolute E lp)" by simp
  have loop: "upload_loop E token rf (map JStr (pre @ lp # post)) [] w2 =
      (Inl (HTTPException 400 (''Local file not found: '' @ absolute E lp)), w3)"
    using upload_loop_missing [OF x', of token rf "map JStr post" uploaded]
    by (simp add: upload_loop_append andThen_def u')
  have body: "tool_upload_to_onedrive E data wd w1 =
      (Inl (HTTPException 400 (''Local file not found: '' @ absolute E lp)), w3)"
    by (simp add: tool_upload_to_onedrive_def item_def l f andThen_def t' iterate_def ret_def loop [simplified])
  have "run_tool E ''upload_to_onedrive'' data w =
           (Inl (HTTPException 500 (''Tool execution error: '' @
                   http_exception_str E 400 (''Local file not found: '' @ absolute E lp))),
            cleanup E wd w3)"
    by (simp add: run_tool_def TOOL_DEFINITIONS_def l f andThen_def m' try_finally_def
        except_Exception_def tool_body_def body)
  with trace_token_starts [of E w1] m' t' u' show ?thesis by simp
qed

lemma sample_token:
  "get_onedrive_access_token E0 w = (Inr [(''access_token'', ''tok'')],
     w\<lparr>trace := trace w @ [GetAccounts, AcquireTokenForClient]\<rparr>)"
  by (simp add: get_onedrive_access_token_def prog_defs E0_def Let_def)

theorem C2_upload_missing_after_token_witness:
  "run_tool E0 ''upload_to_onedrive'' upload_missing w0 =
     (Inl (HTTPException 500
             ''Tool execution error: 400: Local file not found: /srv/missing.txt''),
      cleanup E0 ''/tmp/mcp_work_a1''
        (snd (upload_loop E0 [(''access_token'', ''tok'')] (JStr ''Docs'') [JStr ''a.txt''] []
               (snd (get_onedrive_access_token E0 (snd (mkdtemp E0 w0)))))))"
proof -
  have u: "fst (upload_loop E0 [(''access_token'', ''tok'')] (JStr ''Docs'') (map JStr [''a.txt'']) []
                  (snd (get_onedrive_access_token E0 (snd (mkdtemp E0 w0))))) =
           Inr [JObj [(''id'', JStr ''item1'')]]"
    by (simp only: sample_mkdtemp sample_token snd_conv)
       (simp add: upload_file_to_onedrive_path_def prog_defs fs_defs sample_defs Let_def)
  have x: "\<not> exists (fs (snd (upload_loop E0 [(''access_token'', ''tok'')] (JStr ''Docs'')
                  (map JStr [''a.txt'']) []
                  (snd (get_onedrive_access_token E0 (snd (mkdtemp E0 w0)))))))
               (cwd E0) (absolute E0 ''missing.txt'')"
    by (simp only: sample_mkdtemp sample_token snd_conv)
       (simp add: upload_file_to_onedrive_path_def absolute_def prog_defs fs_defs sample_defs
          Let_def)
  have a: "absolute E0 ''missing.txt'' = ''/srv/missing.txt''"
    by (simp add: absolute_def fs_defs E0_def)
  from C2_upload_missing_after_token [of upload_missing "[''a.txt'']" "''missing.txt''" "[]"
      "JStr ''Docs''" E0 w0 "''/tmp/mcp_work_a1''" "[(''access_token'', ''tok'')]"
      "[JObj [(''id'', JStr ''item1'')]]"] u x
  show ?thesis
    by (simp add: upload_missing_def sample_mkdtemp sample_token a)
       (simp add: sample_defs)
qed

text \<open>
  C2 as stated fails: with \<open>missing.txt\<close> as the only local path, the token has been
  acquired from the identity provider before the file is found missing.
\<close>

theorem C2_token_before_check_counterexample:
  "fst (run_tool E0 ''upload_to_onedrive'' upload_only_missing w0) =
     Inl (HTTPException 500
            ''Tool execution error: 400: Local file not found: /srv/missing.txt'')
   \<and> trace (snd (run_tool E0 ''upload_to_onedrive'' upload_only_missing w0)) =
       [Mkdtemp ''/tmp/mcp_work_a1'', GetAccounts, AcquireTokenForClient,
        Rmtree ''/tmp/mcp_work_a1'']"
  by (simp add: run_tool_def upload_only_missing_def tool_body_def tool_upload_to_onedrive_def
      mkdtemp_def get_onedrive_access_token_def upload_file_to_onedrive_path_def
      prog_defs fs_defs sample_defs Let_def)

section \<open>The archive builder and a missing source\<close>

lemma zip_loop_append:
  "zip_loop E zf entries (xs @ ys) =
     andThen (zip_loop E zf entries xs) (\<lambda>entries'. zip_loop E zf entries' ys)"
  by (induction xs arbitrary: entries)
     (simp_all add: andThen_assoc andThen_ret_fun andThen_raise_fun andThen_if cong: if_cong)

lemma zip_loop_missing:
  "\<not> exists (fs w) (cwd E) f \<Longrightarrow>
   zip_loop E zf entries (JStr f # rest) w =
     (Inl (FileNotFoundError (''File does not exist: '' @ f)), w)"
  by (simp add: as_str_def os_path_exists_def andThen_def ret_def raise_def)

lemma zip_loop_holds:
  "zip_loop E zf entries xs w = (Inr es, w') \<Longrightarrow>
   fmlookup (fs w) zf = Some (File (Archive entries)) \<Longrightarrow>
   fmlookup (fs w') zf = Some (File (Archive es))"
proof (induction xs arbitrary: entries w)
  case Nil
  then show ?case by (simp add: ret_def)
next
  case (Cons x xs)
  from Cons.prems(1) obtain f where x: "x = JStr f"
    by (cases x) (simp_all add: as_str_def raise_def)
  from Cons.prems(1) x have found: "exists (fs w) (cwd E) f"
    by (auto simp: as_str_def os_path_exists_def andThen_def ret_def raise_def split: if_splits)
  from Cons.prems(1) x found obtain en w1 where
    wr: "zf_write E zf entries f (basename f) w = (Inr en, w1)"
    and rest: "zip_loop E zf en xs w1 = (Inr es, w')"
    by (auto simp: as_str_def os_path_exists_def andThen_def ret_def
        split: prod.splits sum.splits)
  from wr have "fmlookup (fs w1) zf = Some (File (Archive en))"
    by (auto simp: zf_write_def split: sum.splits)
  with rest show ?case by (rule Cons.IH)
qed

lemma zip_open_creates:
  "zip_open E p w = (Inr zf, w') \<Longrightarrow>
   resolve (fs w) (cwd E) p = Some zf \<and> fmlookup (fs w') zf = Some (File (Archive []))"
  by (auto simp: zip_open_def write_file_def split: sum.splits option.splits if_splits)

text \<open>
  C3, as the code has it.  \<open>compress_files\<close> opens the archive at the output path first
  and checks each source when the loop reaches it.  When the output can be opened, the
  sources in front of a missing one are archived, and the next source does not exist,
  it raises \<open>FileNotFoundError("File does not exist: f")\<close> for that source, and the
  archive is left at the output path, holding the entries written before.
\<close>

theorem C3_source_missing_leaves_archive:
  fixes E :: env and w :: world and output_zip :: string and zf :: path and pre :: "string list"
  defines "w1 \<equiv> snd (os_makedirs E (if dirname output_zip = [] then ''.'' else dirname output_zip) w)"
  defines "w2 \<equiv> snd (zip_open E output_zip w1)"
  defines "w3 \<equiv> snd (zip_loop E zf [] (map JStr pre) w2)"
  assumes d: "fst (os_makedirs E (if dirname output_zip = [] then ''.'' else dirname output_zip) w) = Inr ()"
    and z: "fst (zip_open E output_zip w1) = Inr zf"
    and p: "fst (zip_loop E zf [] (map JStr pre) w2) = Inr entries"
    and x: "\<not> exists (fs w3) (cwd E) f"
  shows "compress_files E (JList (map JStr (pre @ f # post))) output_zip w =
           (Inl (FileNotFoundError (''File does not exist: '' @ f)), w3)
         \<and> resolve (fs w1) (cwd E) output_zip = Some zf
         \<and> fmlookup (fs w3) zf = Some (File (Archive entries))"
proof -
  have d': "os_makedirs E (if dirname output_zip = [] then ''.'' else dirname output_zip) w = (Inr (), w1)"
    using d unfolding w1_def
    by (cases "os_makedirs E (if dirname output_zip = [] then ''.'' else dirname output_zip) w") simp
  have z': "zip_open E output_zip w1 = (Inr zf, w2)"
    using z unfolding w2_def by (cases "zip_open E output_zip w1") simp
  from zip_open_creates [OF z'] have r: "resolve (fs w1) (cwd E) output_zip = Some zf"
    and a0: "fmlookup (fs w2) zf = Some (File (Archive []))" by simp_all
  have p': "zip_loop E zf [] (map JStr pre) w2 = (Inr entries, w3)"
    using p unfolding w3_def by (cases "zip_loop E zf [] (map JStr pre) w2") simp
  have loop: "zip_loop E zf [] (map JStr (pre @ f # post)) w2 =
      (Inl (FileNotFoundError (''File does not exist: '' @ f)), w3)"
    using zip_loop_missing [OF x, of zf entries "map JStr post"]
    by (simp add: zip_loop_append andThen_def p')
  have "compress_files E (JList (map JStr (pre @ f # post))) output_zip w =
           (Inl (FileNotFoundError (''File does not exist: '' @ f)), w3)"
    by (simp add: compress_files_def andThen_def d' z' iterate_def ret_def loop [simplified])
  with r zip_loop_holds [OF p' a0] show ?thesis by simp
qed

lemmas zip_defs = compress_files_def zip_open_def zf_write_def zip_entry_def basename_def
  dirname_def

theorem C3_source_missing_leaves_archive_witness:
  "compress_files E0 (JList [JStr ''a.txt'', JStr ''missing.txt'']) ''out.zip'' w0 =
     (Inl (FileNotFoundError ''File does not exist: missing.txt''),
      snd (zip_loop E0 [''srv'', ''out.zip''] [] [JStr ''a.txt'']
             (snd (zip_open E0 ''out.zip'' (snd (os_makedirs E0 ''.'' w0))))))
   \<and> fmlookup (fs (snd (zip_loop E0 [''srv'', ''out.zip''] [] [JStr ''a.txt'']
             (snd (zip_open E0 ''out.zip'' (snd (os_makedirs E0 ''.'' w0))))))) [''srv'', ''out.zip'']
       = Some (File (Archive [(''a.txt'', Bytes ''hello'')]))"
proof -
  have d: "os_makedirs E0 ''.'' w0 = (Inr (), w0\<lparr>trace := [Makedirs ''.'']\<rparr>)"
    by (simp add: prog_defs fs_defs sample_defs)
  have z: "zip_open E0 ''out.zip'' (w0\<lparr>trace := [Makedirs ''.'']\<rparr>) =
      (Inr [''srv'', ''out.zip''],
       w0\<lparr>fs := fmupd [''srv'', ''out.zip''] (File (Archive [])) (fs w0),
          trace := [Makedirs ''.'', ZipOpen [''srv'', ''out.zip'']]\<rparr>)"
    by (simp add: zip_defs prog_defs fs_defs sample_defs)
  have p: "fst (zip_loop E0 [''srv'', ''out.zip''] [] (map JStr [''a.txt''])
        (w0\<lparr>fs := fmupd [''srv'', ''out.zip''] (File (Archive [])) (fs w0),
          trace := [Makedirs ''.'', ZipOpen [''srv'', ''out.zip'']]\<rparr>)) =
      Inr [(''a.txt'', Bytes ''hello'')]"
    by (simp add: zip_defs prog_defs fs_defs sample_defs)
  have x: "\<not> exists (fs (snd (zip_loop E0 [''srv'', ''out.zip''] [] (map JStr [''a.txt''])
        (w0\<lparr>fs := fmupd [''srv'', ''out.zip''] (File (Archive [])) (fs w0),
          trace := [Makedirs ''.'', ZipOpen [''srv'', ''out.zip'']]\<rparr>)))) (cwd E0) ''missing.txt''"
    by (simp add: zip_defs prog_defs fs_defs sample_defs)
  have dn: "dirname ''out.zip'' = []" by (simp add: dirname_def)
  from C3_source_missing_leaves_archive [of E0 "''out.zip''" w0 "[''srv'', ''out.zip'']"
      "[''a.txt'']" "[(''a.txt'', Bytes ''hello'')]" "''missing.txt''" "[]"] p x
  show ?thesis by (simp add: dn d z)
qed

text \<open>
  C3 as stated fails: the output path \<open>out.zip\<close> does not exist before the call, and
  after the failing call it exists and holds the archive with the entry of \<open>a.txt\<close>.
\<close>

theorem C3_archive_produced_counterexample:
  "fst (compress_files E0 (JList [JStr ''a.txt'', JStr ''missing.txt'']) ''out.zip'' w0) =
     Inl (FileNotFoundError ''File does not exist: missing.txt'')
   \<and> \<not> exists (fs w0) (cwd E0) ''out.zip''
   \<and> exists (fs (snd (compress_files E0 (JList [JStr ''a.txt'', JStr ''missing.txt''])
                        ''out.zip'' w0))) (cwd E0) ''out.zip''
   \<and> fmlookup (fs (snd (compress_files E0 (JList [JStr ''a.txt'', JStr ''missing.txt''])
                        ''out.zip'' w0))) [''srv'', ''out.zip'']
       = Some (File (Archive [(''a.txt'', Bytes ''hello'')]))"
  by (simp add: zip_defs prog_defs fs_defs sample_defs)

section \<open>What a failing stage returns\<close>

text \<open>Whether a text mentions a word.\<close>

fun mentions :: "string \<Rightarrow> string \<Rightarrow> bool" where
  "mentions word [] = (word = [])"
| "mentions word (c # cs) = (take (length word) (c # cs) = word \<or> mentions word cs)"

definition compress_missing :: "(string \<times> json) list" where
  "compress_missing =
     [(''local_paths'', JList [JStr ''missing.txt'']), (''output_zip'', JStr ''out.zip'')]"

lemma run_tool_raises:
  assumes v: "map_of TOOL_DEFINITIONS tool = Some required" "first_missing required data = None"
    and m: "fst (mkdtemp E w) = Inr wd"
    and t: "fst (tool_body E tool data wd (snd (mkdtemp E w))) = Inl e"
  shows "fst (run_tool E tool data w) =
           Inl (HTTPException 500 (''Tool execution error: '' @ str_exn E e))"
proof -
  obtain w1 where m': "mkdtemp E w = (Inr wd, w1)"
    using m by (cases "mkdtemp E w") simp
  with t obtain w2 where t': "tool_body E tool data wd w1 = (Inl e, w2)"
    by (cases "tool_body E tool data wd w1") simp
  from v m' t' show ?thesis
    by (simp add: run_tool_def andThen_def try_finally_def except_Exception_def)
qed

text \<open>
  C8, as the code has it.  Past validation, when the tool branch raises \<open>e\<close> the caller
  gets one response, \<open>HTTPException(500, "Tool execution error: " + str(e))\<close>: a fixed
  prefix and the original message, with no name of a stage in it, and no payload, so
  nothing of the stages that had completed comes back with the error.
\<close>

theorem C8_failure_response:
  assumes v: "map_of TOOL_DEFINITIONS tool = Some required" "first_missing required data = None"
    and m: "fst (mkdtemp E w) = Inr wd"
    and t: "fst (tool_body E tool data wd (snd (mkdtemp E w))) = Inl e"
  shows "fst (run_tool E tool data w) =
           Inl (HTTPException 500 (''Tool execution error: '' @ str_exn E e))
         \<and> (\<forall>payload. fst (run_tool E tool data w) \<noteq> Inr payload)"
  using run_tool_raises [OF v m t] by simp

lemma compress_missing_tool:
  "tool_body E0 ''compress_files'' compress_missing ''/tmp/mcp_work_a1'' =
   andThen (compress_files E0 (JList [JStr ''missing.txt'']) ''/tmp/mcp_work_a1/out.zip'')
     (\<lambda>_. ret [(''zip_path'', JStr ''/tmp/mcp_work_a1/out.zip'')])"
  by (simp add: tool_body_def tool_compress_files_def compress_missing_def item_def as_str_def
      join_def isabs_def andThen_ret_fun Let_def)

lemma compress_missing_run:
  "fst (compress_files E0 (JList [JStr ''missing.txt'']) ''/tmp/mcp_work_a1/out.zip''
         (w0\<lparr>fs := fmupd [''tmp'', ''mcp_work_a1''] Dir (fs w0),
             trace := [Mkdtemp ''/tmp/mcp_work_a1'']\<rparr>))
   = Inl (FileNotFoundError ''File does not exist: missing.txt'')"
  by (simp add: zip_defs prog_defs fs_defs sample_defs)

lemma fst_andThen_Inl: "fst (m w) = Inl e \<Longrightarrow> fst (andThen m f w) = Inl e"
  by (cases "m w") (simp add: andThen_def)

lemma compress_missing_body:
  "fst (tool_body E0 ''compress_files'' compress_missing ''/tmp/mcp_work_a1''
          (snd (mkdtemp E0 w0))) = Inl (FileNotFoundError ''File does not exist: missing.txt'')"
  by (simp only: sample_mkdtemp snd_conv compress_missing_tool)
     (rule fst_andThen_Inl, rule compress_missing_run)

theorem C8_failure_response_witness:
  "fst (run_tool E0 ''compress_files'' compress_missing w0) =
     Inl (HTTPException 500 ''Tool execution error: File does not exist: missing.txt'')"
proof -
  have v: "map_of TOOL_DEFINITIONS ''compress_files'' = Some [''local_paths'', ''output_zip'']"
    "first_missing [''local_paths'', ''output_zip''] compress_missing = None"
    by (simp_all add: TOOL_DEFINITIONS_def compress_missing_def)
  have m: "fst (mkdtemp E0 w0) = Inr ''/tmp/mcp_work_a1''"
    by (simp add: sample_mkdtemp)
  from C8_failure_response [OF v m compress_missing_body] show ?thesis by simp
qed

text \<open>
  C8 as stated fails: the archive stage of the compress tool fails on a missing source,
  and the detail of the response names no stage.
\<close>

theorem C8_no_stage_name_counterexample:
  "fst (run_tool E0 ''compress_files'' compress_missing w0) =
     Inl (HTTPException 500 ''Tool execution error: File does not exist: missing.txt'')
   \<and> \<not> mentions ''archive'' ''Tool execution error: File does not exist: missing.txt''
   \<and> \<not> mentions ''Archive'' ''Tool execution error: File does not exist: missing.txt''
   \<and> \<not> mentions ''ARCHIVE'' ''Tool execution error: File does not exist: missing.txt''
   \<and> \<not> mentions ''compress'' ''Tool execution error: File does not exist: missing.txt''
   \<and> \<not> mentions ''Compress'' ''Tool execution error: File does not exist: missing.txt''
   \<and> \<not> mentions ''zip'' ''Tool execution error: File does not exist: missing.txt''"
proof -
  have v: "map_of TOOL_DEFINITIONS ''compress_files'' = Some [''local_paths'', ''output_zip'']"
    "first_missing [''local_paths'', ''output_zip''] compress_missing = None"
    by (simp_all add: TOOL_DEFINITIONS_def compress_missing_def)
  have m: "fst (mkdtemp E0 w0) = Inr ''/tmp/mcp_work_a1''"
    by (simp add: sample_mkdtemp)
  from run_tool_raises [OF v m compress_missing_body] show ?thesis by simp
qed

section \<open>Where tokens are persisted\<close>

text \<open>A program that leaves the file system as it is.\<close>

definition keeps_fs :: "'a prog \<Rightarrow> bool" where
  "keeps_fs m = (\<forall>w. fs (snd (m w)) = fs w)"

text \<open>A first use: the credentials file is there, the token file is not.\<close>

definition w_first_use :: world where
  "w_first_use =
     \<lparr>fs = fmap_of_list
              [([''tmp''], Dir), ([''srv''], Dir),
               ([''srv'', ''credentials.json''], File (Bytes ''{client}''))],
      trace = []\<rparr>"

lemma keeps_fs_ret [intro!, simp]: "keeps_fs (ret x)"
  by (simp add: keeps_fs_def ret_def)

lemma keeps_fs_raise [intro!, simp]: "keeps_fs (raise e)"
  by (simp add: keeps_fs_def raise_def)

lemma keeps_fs_call [intro!, simp]: "keeps_fs (call ev r)"
  by (simp add: keeps_fs_def call_def)

lemma keeps_fs_emit [intro!, simp]: "keeps_fs (emit ev)"
  by (simp add: keeps_fs_def emit_def)

lemma keeps_fs_andThen [intro!]:
  assumes "keeps_fs m" and "\<And>x. keeps_fs (f x)"
  shows "keeps_fs (andThen m f)"
  unfolding keeps_fs_def
proof
  fix w
  obtain r w1 where m: "m w = (r, w1)" by fastforce
  with assms(1) have "fs w1 = fs w" by (auto simp: keeps_fs_def dest: spec [of _ w])
  with m assms(2) show "fs (snd (andThen m f w)) = fs w"
    by (cases r) (auto simp: andThen_def keeps_fs_def)
qed

lemma keeps_fs_token: "keeps_fs (get_onedrive_access_token E)"
  by (auto simp: get_onedrive_access_token_def Let_def split: list.splits option.splits)

lemma local_flow_writes:
  assumes "local_flow E w = (Inr c, w')"
  shows "\<exists>k. resolve (fs w) (cwd E) (GOOGLE_TOKEN_FILE (config E)) = Some k \<and>
             fs w' = fmupd k (File (Bytes (to_json c))) (fs w) \<and>
             trace w' = trace w @ [RunLocalServer, WriteFile k]"
  using assms
  by (auto simp: local_flow_def andThen_def os_path_exists_def open_read_def call_def
      open_write_def write_file_def ret_def raise_def
      split: if_splits sum.splits option.splits prod.splits)

lemma call_Inr: "call ev r w = (Inr x, w') \<Longrightarrow> r = Inr x \<and> w' = w\<lparr>trace := trace w @ [ev]\<rparr>"
  by (auto simp: call_def)

lemma load_keeps:
  "(if b then andThen (open_read E p) (\<lambda>text. andThen (lift (g text)) (\<lambda>c. ret (Some c)))
    else ret None) w = (r, w') \<Longrightarrow> w' = w"
  by (auto simp: andThen_def open_read_def lift_def ret_def
      split: if_splits sum.splits prod.splits)

lemma build_gmail_service_cases:
  assumes "fst (build_gmail_service E w) = Inr c"
  shows "(fs (snd (build_gmail_service E w)) = fs w \<and>
           trace (snd (build_gmail_service E w)) = trace w @ [GmailBuild])
          \<or> (\<exists>k. resolve (fs w) (cwd E) (GOOGLE_TOKEN_FILE (config E)) = Some k \<and>
                 fmlookup (fs (snd (build_gmail_service E w))) k = Some (File (Bytes (to_json c))) \<and>
                 trace (snd (build_gmail_service E w)) =
                   trace w @ [RunLocalServer, WriteFile k, GmailBuild])"
proof -
  obtain w' where b: "build_gmail_service E w = (Inr c, w')"
    using assms by (cases "build_gmail_service E w") simp
  let ?load = "if exists (fs w) (cwd E) (GOOGLE_TOKEN_FILE (config E))
      then andThen (open_read E (GOOGLE_TOKEN_FILE (config E)))
             (\<lambda>text. andThen (lift (from_authorized_user_file E text)) (\<lambda>c. ret (Some c)))
      else ret None"
  obtain r1 w1 where l: "?load w = (r1, w1)" by fastforce
  then have w1: "w1 = w" by (rule load_keeps)
  from b l w1 obtain creds where r1: "r1 = Inr creds"
    by (cases r1) (auto simp: build_gmail_service_def andThen_def os_path_exists_def)
  let ?acq = "case creds of
                None \<Rightarrow> local_flow E
              | Some c \<Rightarrow>
                  if valid c then ret c
                  else if expired c \<and> truthy (refresh_token c)
                  then (case refresh c of Inl _ \<Rightarrow> local_flow E | Inr c' \<Rightarrow> ret c')
                  else ret c"
  from b l w1 r1 obtain w2 where a: "?acq w = (Inr c, w2)"
    and g: "w' = w2\<lparr>trace := trace w2 @ [GmailBuild]\<rparr>"
    by (auto simp: build_gmail_service_def andThen_def os_path_exists_def call_def ret_def
        split: sum.splits prod.splits)
  from a have "w2 = w \<or> local_flow E w = (Inr c, w2)"
    by (auto simp: ret_def refresh_def split: option.splits if_splits)
  then have "(fs w' = fs w \<and> trace w' = trace w @ [GmailBuild])
          \<or> (\<exists>k. resolve (fs w) (cwd E) (GOOGLE_TOKEN_FILE (config E)) = Some k \<and>
                 fmlookup (fs w') k = Some (File (Bytes (to_json c))) \<and>
                 trace w' = trace w @ [RunLocalServer, WriteFile k, GmailBuild])"
  proof
    assume "w2 = w"
    with g show ?thesis by simp
  next
    assume "local_flow E w = (Inr c, w2)"
    from local_flow_writes [OF this] g show ?thesis by auto
  qed
  then show ?thesis using b by simp
qed

text \<open>
  The mail provider.  When \<open>build_gmail_service\<close> returns a service and the interactive
  flow has run on the way, the token it gave was written to the token file before the
  service was built and returned: the log reads \<open>RunLocalServer\<close>, \<open>WriteFile\<close>,
  \<open>GmailBuild\<close>, and the token file holds the new token.
\<close>

lemma mail_token_written_before_return:
  assumes "fst (build_gmail_service E w) = Inr c"
    and "RunLocalServer \<in> set (trace (snd (build_gmail_service E w)))"
    and "RunLocalServer \<notin> set (trace w)"
  shows "\<exists>k. resolve (fs w) (cwd E) (GOOGLE_TOKEN_FILE (config E)) = Some k \<and>
             fmlookup (fs (snd (build_gmail_service E w))) k = Some (File (Bytes (to_json c))) \<and>
             trace (snd (build_gmail_service E w)) =
               trace w @ [RunLocalServer, WriteFile k, GmailBuild]"
  using build_gmail_service_cases [OF assms(1)] assms(2,3) by auto

lemma first_use_build:
  "build_gmail_service E0 w_first_use =
     (Inr sample_creds,
      \<lparr>fs = fmupd [''srv'', ''token.json''] (File (Bytes ''{token}'')) (fs w_first_use),
       trace = [RunLocalServer, WriteFile [''srv'', ''token.json''], GmailBuild]\<rparr>)"
  by (simp add: build_gmail_service_def local_flow_def w_first_use_def prog_defs fs_defs
      sample_defs)

lemma mail_token_written_example:
  "fst (build_gmail_service E0 w_first_use) = Inr sample_creds
   \<and> fmlookup (fs w_first_use) [''srv'', ''token.json''] = None
   \<and> fmlookup (fs (snd (build_gmail_service E0 w_first_use))) [''srv'', ''token.json''] =
       Some (File (Bytes ''{token}''))
   \<and> trace (snd (build_gmail_service E0 w_first_use)) =
       [RunLocalServer, WriteFile [''srv'', ''token.json''], GmailBuild]"
  using mail_token_written_before_return [of E0 w_first_use sample_creds]
  by (simp add: first_use_build) (simp add: w_first_use_def fs_defs)

text \<open>
  The delegated set-up of the storage provider: no client secret, so the device flow
  runs, and it hands out a token.
\<close>

definition E_device :: env where
  "E_device =
     E0\<lparr>config := (config E0)\<lparr>MSFT_CLIENT_SECRET := [],
                                 MSFT_SCOPES := [''Files.ReadWrite.All'', ''offline_access'',
                                                 ''User.Read'']\<rparr>,
        initiate_device_flow :=
          (\<lambda>s. Inr [(''user_code'', ''ABCD''),
                    (''verification_uri'', ''https://microsoft.com/devicelogin'')]),
        acquire_token_by_device_flow :=
          (\<lambda>f. Inr [(''access_token'', ''tok''), (''refresh_token'', ''ref'')])\<rparr>"

text \<open>
  C7.  The claim wants every token that is acquired written to durable token storage
  before it is returned.  The storage provider does not do it:
  \<open>get_onedrive_access_token\<close> leaves the file system as it was, in every environment
  and from every state, although the docstring of \<open>onedrive_handler.py\<close> says of the
  delegated flow that it "stores token in msal_token.json", and the module defines
  \<open>MSAL_TOKEN_PATH\<close> and never uses it.  In the delegated set-up the device flow hands
  out a token, the call returns it, no write is logged, and \<open>msal_token.json\<close> is not
  there afterwards.
\<close>

theorem C7_storage_token_not_persisted:
  "(\<forall>E w. fs (snd (get_onedrive_access_token E w)) = fs w)
   \<and> fst (get_onedrive_access_token E_device w0) =
       Inr [(''access_token'', ''tok''), (''refresh_token'', ''ref'')]
   \<and> trace (snd (get_onedrive_access_token E_device w0)) =
       [GetAccounts, InitiateDeviceFlow,
        Print ''To authenticate, visit https://microsoft.com/devicelogin and enter code: ABCD'',
        AcquireTokenByDeviceFlow]
   \<and> \<not> exists (fs (snd (get_onedrive_access_token E_device w0))) (cwd E_device)
         ''msal_token.json''"
proof -
  have g: "\<forall>E w. fs (snd (get_onedrive_access_token E w)) = fs w"
    using keeps_fs_token by (simp add: keeps_fs_def)
  have r: "fst (get_onedrive_access_token E_device w0) =
       Inr [(''access_token'', ''tok''), (''refresh_token'', ''ref'')]"
    by code_simp
  have t: "trace (snd (get_onedrive_access_token E_device w0)) =
       [GetAccounts, InitiateDeviceFlow,
        Print ''To authenticate, visit https://microsoft.com/devicelogin and enter code: ABCD'',
        AcquireTokenByDeviceFlow]"
    by code_simp
  have x: "\<not> exists (fs (snd (get_onedrive_access_token E_device w0))) (cwd E_device)
         ''msal_token.json''"
    by code_simp
  from g r t x show ?thesis by simp
qed

section \<open>Downloads only add files\<close>

text \<open>Every file and directory of \<open>F\<close> is in \<open>F'\<close> as it was.\<close>

definition keeps_files :: "filesystem \<Rightarrow> filesystem \<Rightarrow> bool" where
  "keeps_files F F' = (\<forall>k v. fmlookup F k = Some v \<longrightarrow> fmlookup F' k = Some v)"

text \<open>The addresses written, as the log has them.\<close>

fun write_keys :: "event list \<Rightarrow> path list" where
  "write_keys [] = []"
| "write_keys (WriteFile k # evs) = k # write_keys evs"
| "write_keys (ev # evs) = write_keys evs"

text \<open>
  From \<open>w\<close> to \<open>w'\<close> the log has grown, every address written in between was free
  in \<open>w\<close>, none was written twice, and all that was in the file system of \<open>w\<close> is
  still there, unchanged.
\<close>

definition only_adds :: "world \<Rightarrow> world \<Rightarrow> bool" where
  "only_adds w w' =
     (\<exists>new. trace w' = trace w @ new \<and> distinct (write_keys new) \<and>
            (\<forall>k \<in> set (write_keys new). fmlookup (fs w) k = None \<and> fmlookup (fs w') k \<noteq> None) \<and>
            keeps_files (fs w) (fs w'))"

definition adds :: "'a prog \<Rightarrow> bool" where
  "adds m = (\<forall>w. only_adds w (snd (m w)))"

lemma keeps_files_refl [simp]: "keeps_files F F"
  by (simp add: keeps_files_def)

lemma keeps_files_trans: "keeps_files F G \<Longrightarrow> keeps_files G H \<Longrightarrow> keeps_files F H"
  by (simp add: keeps_files_def)

lemma keeps_files_upd: "fmlookup F k = None \<Longrightarrow> keeps_files F (fmupd k v F)"
  by (auto simp: keeps_files_def)






lemma write_keys_append [simp]: "write_keys (xs @ ys) = write_keys xs @ write_keys ys"
  by (induction xs rule: write_keys.induct) auto

lemma unique_path_free: "\<not> exists F wd (unique_path F wd base ext i save_path)"
  by (induction F wd base ext i save_path rule: unique_path.induct)
     (subst unique_path.simps, simp)

lemma write_file_new:
  assumes "write_file F wd p c = Inr F'" and "\<not> exists F wd p"
  shows "\<exists>k. resolve F wd p = Some k \<and> fmlookup F k = None \<and> F' = fmupd k (File c) F"
  using assms
  by (auto simp: write_file_def exists_def present_def split: option.splits if_splits)



lemma only_adds_refl [simp]: "only_adds w w"
  by (simp add: only_adds_def)

lemma only_adds_trans:
  assumes "only_adds w w1" and "only_adds w1 w2"
  shows "only_adds w w2"
proof -
  from assms(1) obtain n1 where n1: "trace w1 = trace w @ n1" "distinct (write_keys n1)"
    "\<forall>k \<in> set (write_keys n1). fmlookup (fs w) k = None \<and> fmlookup (fs w1) k \<noteq> None"
    "keeps_files (fs w) (fs w1)" by (auto simp: only_adds_def)
  from assms(2) obtain n2 where n2: "trace w2 = trace w1 @ n2" "distinct (write_keys n2)"
    "\<forall>k \<in> set (write_keys n2). fmlookup (fs w1) k = None \<and> fmlookup (fs w2) k \<noteq> None"
    "keeps_files (fs w1) (fs w2)" by (auto simp: only_adds_def)
  have a: "trace w2 = trace w @ (n1 @ n2)" using n1(1) n2(1) by simp
  have b: "distinct (write_keys (n1 @ n2))" using n1(2,3) n2(2,3) by auto
  have c: "\<forall>k \<in> set (write_keys (n1 @ n2)). fmlookup (fs w) k = None \<and> fmlookup (fs w2) k \<noteq> None"
  proof
    fix k assume "k \<in> set (write_keys (n1 @ n2))"
    then consider "k \<in> set (write_keys n1)" | "k \<in> set (write_keys n2)" by auto
    then show "fmlookup (fs w) k = None \<and> fmlookup (fs w2) k \<noteq> None"
    proof cases
      case 1
      with n1(3) n2(4) show ?thesis by (auto simp: keeps_files_def)
    next
      case 2
      with n2(3) n1(4) show ?thesis by (cases "fmlookup (fs w) k") (auto simp: keeps_files_def)
    qed
  qed
  from a b c keeps_files_trans [OF n1(4) n2(4)] show ?thesis
    unfolding only_adds_def by blast
qed

lemma only_adds_log: "write_keys [ev] = [] \<Longrightarrow> only_adds w (w\<lparr>trace := trace w @ [ev]\<rparr>)"
  by (simp add: only_adds_def)

lemma addsI: "(\<And>w. only_adds w (snd (m w))) \<Longrightarrow> adds m"
  by (simp add: adds_def)

lemma addsD: "adds m \<Longrightarrow> only_adds w (snd (m w))"
  by (simp add: adds_def)

lemma adds_ret [intro!, simp]: "adds (ret x)"
  by (simp add: adds_def ret_def)

lemma adds_raise [intro!, simp]: "adds (raise e)"
  by (simp add: adds_def raise_def)

lemma adds_lift [intro!, simp]: "adds (lift r)"
  by (simp add: adds_def lift_def)

lemma adds_call [intro!]: "write_keys [ev] = [] \<Longrightarrow> adds (call ev r)"
  by (simp add: adds_def call_def only_adds_log)

lemma adds_andThen:
  assumes "adds m" and "\<And>x. adds (f x)"
  shows "adds (andThen m f)"
proof (rule addsI)
  fix w
  obtain r w1 where m: "m w = (r, w1)" by fastforce
  with addsD [OF assms(1), of w] have 1: "only_adds w w1" by simp
  show "only_adds w (snd (andThen m f w))"
  proof (cases r)
    case (Inl e)
    with m 1 show ?thesis by (simp add: andThen_def)
  next
    case (Inr x)
    have "only_adds w1 (snd (f x w1))" by (rule addsD [OF assms(2)])
    with 1 m Inr show ?thesis by (auto simp: andThen_def intro: only_adds_trans)
  qed
qed



lemma save_path_write_adds:
  "only_adds w (snd (open_write E (unique_path (fs w) (cwd E) base ext i sp) c w))"
proof (cases "write_file (fs w) (cwd E) (unique_path (fs w) (cwd E) base ext i sp) c")
  case (Inl e)
  then show ?thesis by (simp add: open_write_def)
next
  case (Inr F')
  from write_file_new [OF Inr unique_path_free] obtain k where
    k: "resolve (fs w) (cwd E) (unique_path (fs w) (cwd E) base ext i sp) = Some k"
    "fmlookup (fs w) k = None" "F' = fmupd k (File c) (fs w)" by blast
  with Inr show ?thesis
    by (auto simp: open_write_def only_adds_def intro: keeps_files_upd)
qed


lemma andThen_read: "andThen (\<lambda>w. (Inr (g w), w)) f w = f (g w) w"
  by (simp add: andThen_def)

lemma snd_andThen_ret: "snd (andThen m (\<lambda>x. ret y) w) = snd (m w)"
  by (cases "m w") (auto simp: andThen_def ret_def split: sum.splits)

lemma save_tail_adds:
  "adds (andThen (\<lambda>w. (Inr (let save_path = join download_folder name;
                                 (base, ext) = splitext save_path
                             in unique_path (fs w) (cwd E) base ext 1 save_path), w))
           (\<lambda>save_path. andThen (open_write E save_path c) (\<lambda>_. ret save_path)))"
proof (rule addsI)
  fix w
  show "only_adds w (snd (andThen (\<lambda>w. (Inr (let save_path = join download_folder name;
                                 (base, ext) = splitext save_path
                             in unique_path (fs w) (cwd E) base ext 1 save_path), w))
           (\<lambda>save_path. andThen (open_write E save_path c) (\<lambda>_. ret save_path)) w))"
    unfolding andThen_read snd_andThen_ret Let_def split_def
    by (rule save_path_write_adds)
qed

lemma adds_save_attachment: "adds (save_attachment E download_folder mid name attach_id)"
  unfolding save_attachment_def
proof (rule adds_andThen)
  show "adds (call (AttachmentsGet mid attach_id) (attachments_get E mid attach_id))"
    by (rule adds_call) simp
next
  fix data
  show "adds (case data of
         None \<Rightarrow> raise (AttributeError ''NoneType object has no attribute encode'')
       | Some d \<Rightarrow>
           andThen (lift (urlsafe_b64decode E d)) (\<lambda>file_data.
           andThen (\<lambda>w. (Inr (let save_path = join download_folder name;
                                   (base, ext) = splitext save_path
                               in unique_path (fs w) (cwd E) base ext 1 save_path), w))
             (\<lambda>save_path.
           andThen (open_write E save_path (Bytes file_data)) (\<lambda>_.
             ret save_path))))"
  proof (cases data)
    case None
    then show ?thesis by simp
  next
    case (Some d)
    show ?thesis unfolding Some option.case
      by (rule adds_andThen [OF adds_lift save_tail_adds])
  qed
qed

lemma adds_download_parts: "adds (download_parts E download_folder mid ps saved)"
  by (induction ps arbitrary: saved)
     (auto split: option.splits intro!: adds_andThen [OF adds_save_attachment])






lemma keeps_only_adds: "only_adds w w' \<Longrightarrow> keeps_files (fs w) (fs w')"
  by (auto simp: only_adds_def)





lemma download_parts_keeps:
  "download_parts E download_folder mid ps saved w = (r, w') \<Longrightarrow> keeps_files (fs w) (fs w')"
  using addsD [OF adds_download_parts, of w E download_folder mid ps saved]
  by (auto dest: keeps_only_adds)









section \<open>The download loop: collisions and fetched parts\<close>




lemma two_downloads_trace:
  "trace (snd (download_attachments_from_messages E0 [sample_message, sample_message] ''/tmp/dl'' w0)) =
     [Makedirs ''/tmp/dl'', AttachmentsGet ''m1'' ''att1'',
      WriteFile [''tmp'', ''dl'', ''a.txt''], AttachmentsGet ''m1'' ''att1'',
      WriteFile [''tmp'', ''dl'', ''a_1.txt'']]"
  by code_simp





section \<open>The compress tool and its workspace\<close>

text \<open>Two inputs of the compress tool: one with a parent step in the output path, one without.\<close>

definition compress_escape :: "(string \<times> json) list" where
  "compress_escape =
     [(''local_paths'', JList [JStr ''a.txt'']), (''output_zip'', JStr ''../out.zip'')]"

definition compress_inside :: "(string \<times> json) list" where
  "compress_inside =
     [(''local_paths'', JList [JStr ''a.txt'']), (''output_zip'', JStr ''out.zip'')]"

text \<open>
  C9.  Line 162 joins the workspace and a relative \<open>output_zip\<close> as they are.  With
  \<open>../out.zip\<close> the archive is created in the parent of the workspace: the call
  succeeds and reports \<open>/tmp/mcp_work_a1/../out.zip\<close>, the workspace is removed, and
  the archive is still there, at \<open>/tmp/out.zip\<close>, which was not there before and is
  not below the workspace.
\<close>

theorem C9_archive_escapes_workspace:
  "fst (run_tool E0 ''compress_files'' compress_escape w0) =
     Inr [(''zip_path'', JStr ''/tmp/mcp_work_a1/../out.zip'')]
   \<and> fmlookup (fs w0) [''tmp'', ''out.zip''] = None
   \<and> fmlookup (fs (snd (run_tool E0 ''compress_files'' compress_escape w0))) [''tmp'', ''out.zip''] =
       Some (File (Archive [(''a.txt'', Bytes ''hello'')]))
   \<and> fmlookup (fs (snd (run_tool E0 ''compress_files'' compress_escape w0))) [''tmp'', ''mcp_work_a1''] =
       None
   \<and> \<not> prefix [''tmp'', ''mcp_work_a1''] [''tmp'', ''out.zip'']
   \<and> trace (snd (run_tool E0 ''compress_files'' compress_escape w0)) =
       [Mkdtemp ''/tmp/mcp_work_a1'', Makedirs ''/tmp/mcp_work_a1/..'',
        ZipOpen [''tmp'', ''out.zip''], ZipWrite [''tmp'', ''out.zip''] ''a.txt'',
        Rmtree ''/tmp/mcp_work_a1'']"
  by code_simp

text \<open>
  With the plain relative name \<open>out.zip\<close> the archive is created in the workspace and
  is gone, with the workspace, when the call returns the path.
\<close>

lemma inside_example:
  "fst (run_tool E0 ''compress_files'' compress_inside w0) =
     Inr [(''zip_path'', JStr ''/tmp/mcp_work_a1/out.zip'')]
   \<and> fmlookup (fs (snd (run_tool E0 ''compress_files'' compress_inside w0)))
         [''tmp'', ''mcp_work_a1'', ''out.zip''] = None
   \<and> \<not> exists (fs (snd (run_tool E0 ''compress_files'' compress_inside w0))) (cwd E0)
         ''/tmp/mcp_work_a1/out.zip''
   \<and> trace (snd (run_tool E0 ''compress_files'' compress_inside w0)) =
       [Mkdtemp ''/tmp/mcp_work_a1'', Makedirs ''/tmp/mcp_work_a1'',
        ZipOpen [''tmp'', ''mcp_work_a1'', ''out.zip''],
        ZipWrite [''tmp'', ''mcp_work_a1'', ''out.zip''] ''a.txt'',
        Rmtree ''/tmp/mcp_work_a1'']"
  by code_simp

end
